theory Spec2Isabelle
  imports Complex_Main
begin

section \<open>Python floats\<close>

text \<open>
  The module computes with Python and numpy floats.  They are modelled as the reals
  extended by the three special values of IEEE arithmetic: the two infinities and
  not-a-number.  Finite arithmetic is exact (no rounding, no overflow of a finite
  result); the special values follow IEEE: an undefined combination such as
  \<open>inf - inf\<close> is \<open>NaN\<close>, \<open>NaN\<close> propagates, and every comparison with
  \<open>NaN\<close> is false.
\<close>

datatype pyfloat = NInf | Fin real | PInf | NaN

datatype error = ValueError | OverflowError

fun fneg :: "pyfloat \<Rightarrow> pyfloat" where
  "fneg NInf = PInf"
| "fneg (Fin a) = Fin (- a)"
| "fneg PInf = NInf"
| "fneg NaN = NaN"

fun fadd :: "pyfloat \<Rightarrow> pyfloat \<Rightarrow> pyfloat" where
  "fadd (Fin a) (Fin b) = Fin (a + b)"
| "fadd NaN y = NaN"
| "fadd x NaN = NaN"
| "fadd PInf NInf = NaN"
| "fadd NInf PInf = NaN"
| "fadd PInf y = PInf"
| "fadd x PInf = PInf"
| "fadd NInf y = NInf"
| "fadd x NInf = NInf"

definition fsub :: "pyfloat \<Rightarrow> pyfloat \<Rightarrow> pyfloat" where
  "fsub x y = fadd x (fneg y)"

fun fsgn :: "pyfloat \<Rightarrow> int" where
  "fsgn NInf = - 1"
| "fsgn (Fin a) = (if a < 0 then - 1 else if a = 0 then 0 else 1)"
| "fsgn PInf = 1"
| "fsgn NaN = 0"

fun fmul :: "pyfloat \<Rightarrow> pyfloat \<Rightarrow> pyfloat" where
  "fmul (Fin a) (Fin b) = Fin (a * b)"
| "fmul NaN y = NaN"
| "fmul x NaN = NaN"
| "fmul x y =
     (if fsgn x * fsgn y = 0 then NaN else if fsgn x * fsgn y < 0 then NInf else PInf)"

text \<open>
  Division by a float.  Python raises \<open>ZeroDivisionError\<close> on a zero divisor; every
  divisor of this module is a parameter its constructor has checked to be positive, so
  that branch is never reached and the zero divisor is given numpy's value here.
\<close>

fun fdiv :: "pyfloat \<Rightarrow> pyfloat \<Rightarrow> pyfloat" where
  "fdiv (Fin a) (Fin b) =
     (if b = 0 then (if a = 0 then NaN else if a < 0 then NInf else PInf) else Fin (a / b))"
| "fdiv NaN y = NaN"
| "fdiv x NaN = NaN"
| "fdiv (Fin a) y = Fin 0"
| "fdiv x (Fin b) = (if fsgn x * (if b < 0 then - 1 else 1) < 0 then NInf else PInf)"
| "fdiv x y = NaN"

fun fabs :: "pyfloat \<Rightarrow> pyfloat" where
  "fabs NInf = PInf"
| "fabs (Fin a) = Fin \<bar>a\<bar>"
| "fabs PInf = PInf"
| "fabs NaN = NaN"

fun flt :: "pyfloat \<Rightarrow> pyfloat \<Rightarrow> bool" where
  "flt (Fin a) (Fin b) = (a < b)"
| "flt NaN y = False"
| "flt x NaN = False"
| "flt PInf y = False"
| "flt x NInf = False"
| "flt NInf y = True"
| "flt x PInf = True"

definition feq :: "pyfloat \<Rightarrow> pyfloat \<Rightarrow> bool" where
  "feq x y = (x \<noteq> NaN \<and> x = y)"

definition fle :: "pyfloat \<Rightarrow> pyfloat \<Rightarrow> bool" where
  "fle x y = (flt x y \<or> feq x y)"

definition fgt :: "pyfloat \<Rightarrow> pyfloat \<Rightarrow> bool" where
  "fgt x y = flt y x"

definition fge :: "pyfloat \<Rightarrow> pyfloat \<Rightarrow> bool" where
  "fge x y = fle y x"

fun fexp :: "pyfloat \<Rightarrow> pyfloat" where
  "fexp NInf = Fin 0"
| "fexp (Fin a) = Fin (exp a)"
| "fexp PInf = PInf"
| "fexp NaN = NaN"

text \<open>\<open>np.expm1\<close>, \<open>np.log\<close> and \<open>np.log1p\<close>: numpy returns a special value where
  the mathematical function is undefined and never raises.\<close>

fun np_expm1 :: "pyfloat \<Rightarrow> pyfloat" where
  "np_expm1 NInf = Fin (- 1)"
| "np_expm1 (Fin a) = Fin (exp a - 1)"
| "np_expm1 PInf = PInf"
| "np_expm1 NaN = NaN"

fun np_log :: "pyfloat \<Rightarrow> pyfloat" where
  "np_log NInf = NaN"
| "np_log (Fin a) = (if a < 0 then NaN else if a = 0 then NInf else Fin (ln a))"
| "np_log PInf = PInf"
| "np_log NaN = NaN"

definition np_log1p :: "pyfloat \<Rightarrow> pyfloat" where
  "np_log1p x = np_log (fadd (Fin 1) x)"

text \<open>\<open>math.log\<close> and \<open>math.log1p\<close> on a finite argument: Python raises
  \<open>ValueError\<close> (math domain error) outside the domain.\<close>

definition math_log :: "real \<Rightarrow> error + real" where
  "math_log a = (if a \<le> 0 then Inl ValueError else Inr (ln a))"

definition math_log1p :: "real \<Rightarrow> error + real" where
  "math_log1p a = (if a \<le> - 1 then Inl ValueError else Inr (ln (1 + a)))"

text \<open>\<open>np.logaddexp(x, y) = log(exp(x) + exp(y))\<close>, evaluated without leaving log space.\<close>

fun np_logaddexp :: "pyfloat \<Rightarrow> pyfloat \<Rightarrow> pyfloat" where
  "np_logaddexp (Fin a) (Fin b) = Fin (ln (exp a + exp b))"
| "np_logaddexp NaN y = NaN"
| "np_logaddexp x NaN = NaN"
| "np_logaddexp NInf y = y"
| "np_logaddexp x NInf = x"
| "np_logaddexp x y = PInf"

text \<open>\<open>np.clip(x, lo, hi) = minimum(maximum(x, lo), hi)\<close>; \<open>NaN\<close> stays \<open>NaN\<close>.\<close>

definition np_maximum :: "pyfloat \<Rightarrow> pyfloat \<Rightarrow> pyfloat" where
  "np_maximum x y = (if x = NaN \<or> y = NaN then NaN else if flt x y then y else x)"

definition np_minimum :: "pyfloat \<Rightarrow> pyfloat \<Rightarrow> pyfloat" where
  "np_minimum x y = (if x = NaN \<or> y = NaN then NaN else if flt y x then y else x)"

definition np_clip :: "pyfloat \<Rightarrow> pyfloat \<Rightarrow> pyfloat \<Rightarrow> pyfloat" where
  "np_clip x lo hi = np_minimum (np_maximum x lo) hi"

text \<open>
  \<open>math.isclose(a, b)\<close> with its defaults \<open>rel_tol = 1e-09\<close>, \<open>abs_tol = 0.0\<close>:
  equal values are close, an infinity is close only to itself, and otherwise the
  difference is compared with the relative tolerance of either argument.
\<close>

definition rel_tol :: real where
  "rel_tol = 1 / 10 ^ 9"

fun isclose :: "pyfloat \<Rightarrow> pyfloat \<Rightarrow> bool" where
  "isclose (Fin a) (Fin b) =
     (a = b \<or> \<bar>b - a\<bar> \<le> \<bar>rel_tol * b\<bar> \<or> \<bar>b - a\<bar> \<le> \<bar>rel_tol * a\<bar> \<or> \<bar>b - a\<bar> \<le> 0)"
| "isclose NaN y = False"
| "isclose x NaN = False"
| "isclose x y = (x = y)"

text \<open>\<open>math.floor\<close> returns an integer and raises on the special values.\<close>

fun math_floor :: "pyfloat \<Rightarrow> error + int" where
  "math_floor (Fin a) = Inr \<lfloor>a\<rfloor>"
| "math_floor NaN = Inl ValueError"
| "math_floor x = Inl OverflowError"

text \<open>A Python number is an \<open>int\<close> or a \<open>float\<close>; \<open>isinstance(x, int)\<close> tells them apart,
  whatever the value.\<close>

datatype pynum = PyInt int | PyFloat pyfloat

fun is_int :: "pynum \<Rightarrow> bool" where
  "is_int (PyInt i) = True"
| "is_int (PyFloat x) = False"

fun to_float :: "pynum \<Rightarrow> pyfloat" where
  "to_float (PyInt i) = Fin (of_int i)"
| "to_float (PyFloat x) = x"


section \<open>The numeric collaborator\<close>

text \<open>
  Modelled from the spec: \<open>common.log_a_times_exp_b_plus_c\<close>, a function of this
  repository's \<open>common\<close> module, which is not among the sources.  The spec describes
  it as a numerically stable evaluation of \<open>log(a * exp(b) + c)\<close>; the model is that
  value, with numpy's conventions for the logarithm.
\<close>

definition log_a_times_exp_b_plus_c :: "real \<Rightarrow> pyfloat \<Rightarrow> real \<Rightarrow> pyfloat" where
  "log_a_times_exp_b_plus_c a b c = np_log (fadd (fmul (Fin a) (fexp b)) (Fin c))"

section \<open>The generic additive-noise contract\<close>

datatype AdjacencyType = ADD | REMOVE

text \<open>
  An instance of \<open>AdditiveNoisePrivacyLoss\<close>: its four attributes and the four
  abstract methods a subclass supplies, held as fields.  The methods of the base class
  below are functions of an instance of the class or of any extension of it.
\<close>

record AdditiveNoisePrivacyLoss =
  sensitivity :: real
  discrete_noise :: bool
  sampling_prob :: real
  adjacency_type :: AdjacencyType
  noise_cdf :: "pyfloat \<Rightarrow> pyfloat"
  noise_log_cdf :: "pyfloat \<Rightarrow> pyfloat"
  privacy_loss_without_subsampling :: "pynum \<Rightarrow> error + pyfloat"
  inverse_privacy_loss_without_subsampling :: "pyfloat \<Rightarrow> error + pyfloat"

text \<open>The checks of \<open>AdditiveNoisePrivacyLoss.__init__\<close>, in the order of the source.\<close>

definition base_init_check :: "real \<Rightarrow> real \<Rightarrow> error option" where
  "base_init_check s q =
     (if s \<le> 0 then Some ValueError
      else if q \<le> 0 \<or> q > 1 then Some ValueError
      else None)"

definition mu_upper_cdf :: "'a AdditiveNoisePrivacyLoss_scheme \<Rightarrow> pyfloat \<Rightarrow> pyfloat" where
  "mu_upper_cdf m x =
     (if adjacency_type m = ADD then noise_cdf m x
      else if sampling_prob m = 1 then noise_cdf m (fadd x (Fin (sensitivity m)))
      else fadd (fmul (Fin (1 - sampling_prob m)) (noise_cdf m x))
                (fmul (Fin (sampling_prob m)) (noise_cdf m (fadd x (Fin (sensitivity m))))))"

definition mu_lower_log_cdf :: "'a AdditiveNoisePrivacyLoss_scheme \<Rightarrow> pyfloat \<Rightarrow> pyfloat" where
  "mu_lower_log_cdf m x =
     (if adjacency_type m = ADD then
        (if sampling_prob m = 1 then noise_log_cdf m (fadd x (Fin (- sensitivity m)))
         else np_logaddexp
                (fadd (np_log1p (Fin (- sampling_prob m))) (noise_log_cdf m x))
                (fadd (np_log (Fin (sampling_prob m)))
                      (noise_log_cdf m (fadd x (Fin (- sensitivity m))))))
      else noise_log_cdf m x)"

definition privacy_loss :: "'a AdditiveNoisePrivacyLoss_scheme \<Rightarrow> pynum \<Rightarrow> error + pyfloat" where
  "privacy_loss m x =
     (case privacy_loss_without_subsampling m x of
        Inl e \<Rightarrow> Inl e
      | Inr l \<Rightarrow>
          if sampling_prob m = 1 then Inr l
          else if adjacency_type m = ADD then
            Inr (fneg (log_a_times_exp_b_plus_c (sampling_prob m) (fneg l) (1 - sampling_prob m)))
          else
            Inr (log_a_times_exp_b_plus_c (sampling_prob m) l (1 - sampling_prob m)))"

definition inverse_privacy_loss :: "'a AdditiveNoisePrivacyLoss_scheme \<Rightarrow> pyfloat \<Rightarrow> error + pyfloat" where
  "inverse_privacy_loss m pl =
     (if sampling_prob m = 1 then inverse_privacy_loss_without_subsampling m pl
      else if adjacency_type m = ADD then
        (case math_log (1 - sampling_prob m) of
           Inl e \<Rightarrow> Inl e
         | Inr l \<Rightarrow>
             if isclose pl (Fin (- l)) then inverse_privacy_loss_without_subsampling m PInf
             else if fgt pl (Fin (- l)) then Inl ValueError
             else inverse_privacy_loss_without_subsampling m
                    (fneg (log_a_times_exp_b_plus_c (1 / sampling_prob m) (fneg pl)
                             (1 - 1 / sampling_prob m))))
      else
        (case math_log (1 - sampling_prob m) of
           Inl e \<Rightarrow> Inl e
         | Inr l \<Rightarrow>
             if isclose pl (Fin l) then inverse_privacy_loss_without_subsampling m NInf
             else if fle pl (Fin l) then Inl ValueError
             else inverse_privacy_loss_without_subsampling m
                    (log_a_times_exp_b_plus_c (1 / sampling_prob m) pl
                       (1 - 1 / sampling_prob m))))"

subsection \<open>The hockey-stick divergence, vectorised as in the source\<close>

text \<open>Boolean-mask indexing of numpy: \<open>a[mask]\<close> and \<open>a[mask] = values\<close>.\<close>

fun mask_select :: "'a list \<Rightarrow> bool list \<Rightarrow> 'a list" where
  "mask_select (x # xs) (b # bs) = (if b then x # mask_select xs bs else mask_select xs bs)"
| "mask_select xs bs = []"

fun mask_assign :: "'a list \<Rightarrow> bool list \<Rightarrow> 'a list \<Rightarrow> 'a list" where
  "mask_assign (d # ds) (True # bs) (v # vs) = v # mask_assign ds bs vs"
| "mask_assign (d # ds) (False # bs) vs = d # mask_assign ds bs vs"
| "mask_assign ds bs vs = ds"

text \<open>A list comprehension over a call that may raise stops at the first exception.\<close>

fun collect :: "(error + 'a) list \<Rightarrow> error + 'a list" where
  "collect [] = Inr []"
| "collect (Inl e # rs) = Inl e"
| "collect (Inr v # rs) = (case collect rs of Inl e \<Rightarrow> Inl e | Inr vs \<Rightarrow> Inr (v # vs))"

text \<open>The argument and the result of \<open>get_delta_for_epsilon\<close>: a number or a list.\<close>

datatype float_or_list = Scalar pyfloat | Array "pyfloat list"

text \<open>The body of \<open>get_delta_for_epsilon\<close> on the array \<open>epsilons\<close>.\<close>

definition get_delta_for_epsilons ::
  "'a AdditiveNoisePrivacyLoss_scheme \<Rightarrow> pyfloat list \<Rightarrow> error + pyfloat list" where
  "get_delta_for_epsilons m epsilons =
     (let deltas = map (\<lambda>e. Fin 0) epsilons in
      case
        (if sampling_prob m = 1 then Inr (map (\<lambda>e. True) epsilons, deltas)
         else if adjacency_type m = ADD then
           (case math_log1p (- sampling_prob m) of
              Inl e \<Rightarrow> Inl e
            | Inr l \<Rightarrow> Inr (map (\<lambda>e. flt e (Fin (- l))) epsilons, deltas))
         else
           (case math_log1p (- sampling_prob m) of
              Inl e \<Rightarrow> Inl e
            | Inr l \<Rightarrow>
                let inverse_indices = map (\<lambda>e. fgt e (Fin l)) epsilons;
                    other_indices = map Not inverse_indices
                in Inr (inverse_indices,
                        mask_assign deltas other_indices
                          (map (\<lambda>e. fneg (np_expm1 e)) (mask_select epsilons other_indices)))))
      of
        Inl e \<Rightarrow> Inl e
      | Inr (inverse_indices, deltas') \<Rightarrow>
          (case collect (map (inverse_privacy_loss m) (mask_select epsilons inverse_indices)) of
             Inl e \<Rightarrow> Inl e
           | Inr x_cutoffs \<Rightarrow>
               Inr (map (\<lambda>d. np_clip d (Fin 0) (Fin 1))
                  (mask_assign deltas' inverse_indices
                     (map2 (\<lambda>u v. fsub u (fexp v))
                        (map (mu_upper_cdf m) x_cutoffs)
                        (map2 fadd (mask_select epsilons inverse_indices)
                                   (map (mu_lower_log_cdf m) x_cutoffs)))))))"

definition get_delta_for_epsilon ::
  "'a AdditiveNoisePrivacyLoss_scheme \<Rightarrow> float_or_list \<Rightarrow> error + float_or_list" where
  "get_delta_for_epsilon m epsilon =
     (case epsilon of
        Scalar e \<Rightarrow>
          (case get_delta_for_epsilons m [e] of
             Inl err \<Rightarrow> Inl err
           | Inr deltas \<Rightarrow> Inr (Scalar (hd deltas)))
      | Array es \<Rightarrow>
          (case get_delta_for_epsilons m es of
             Inl err \<Rightarrow> Inl err
           | Inr deltas \<Rightarrow> Inr (Array deltas)))"

section \<open>The statistics library\<close>

text \<open>
  The noise distributions come from \<open>scipy.stats\<close>, which is not part of the repository.
  A frozen distribution is the record of the methods the module calls; a
  constructor of a mechanism takes the library's distribution family as an argument.
\<close>

record rv_frozen =
  cdf :: "pyfloat \<Rightarrow> pyfloat"
  logcdf :: "pyfloat \<Rightarrow> pyfloat"

text \<open>The quantile function \<open>ppf\<close> is called on the normal distribution only.\<close>

record rv_continuous_frozen = rv_frozen +
  ppf :: "pyfloat \<Rightarrow> pyfloat"

section \<open>The tail of a privacy loss distribution\<close>

text \<open>
  A Python \<open>dict\<close>, in insertion order.  Storing under a key that is already present
  replaces the value: a dict display with two equal keys keeps one entry.
\<close>

fun dict_set :: "'k \<Rightarrow> 'v \<Rightarrow> ('k \<times> 'v) list \<Rightarrow> ('k \<times> 'v) list" where
  "dict_set k v [] = [(k, v)]"
| "dict_set k v ((k', v') # d) = (if k' = k then (k', v) # d else (k', v') # dict_set k v d)"

record TailPrivacyLossDistribution =
  lower_x_truncation :: pyfloat
  upper_x_truncation :: pyfloat
  tail_probability_mass_function :: "(pyfloat \<times> pyfloat) list"

text \<open>Calling a method on the result of a constructor: an exception of the constructor
  is the exception of the whole expression.\<close>

definition then_call :: "error + 'a \<Rightarrow> ('a \<Rightarrow> error + 'b) \<Rightarrow> error + 'b" where
  "then_call r f = (case r of Inl e \<Rightarrow> Inl e | Inr m \<Rightarrow> f m)"

section \<open>The Laplace mechanism\<close>

record LaplacePrivacyLoss = AdditiveNoisePrivacyLoss +
  parameter :: real
  laplace_random_variable :: rv_frozen

definition Laplace_privacy_loss_without_subsampling ::
  "real \<Rightarrow> real \<Rightarrow> AdjacencyType \<Rightarrow> pynum \<Rightarrow> error + pyfloat" where
  "Laplace_privacy_loss_without_subsampling b s adj x =
     (if adj = ADD then
        Inr (fdiv (fsub (fabs (fsub (to_float x) (Fin s))) (fabs (to_float x))) (Fin b))
      else
        Inr (fdiv (fsub (fabs (to_float x)) (fabs (fadd (to_float x) (Fin s)))) (Fin b)))"

definition Laplace_inverse_privacy_loss_without_subsampling ::
  "real \<Rightarrow> real \<Rightarrow> AdjacencyType \<Rightarrow> pyfloat \<Rightarrow> error + pyfloat" where
  "Laplace_inverse_privacy_loss_without_subsampling b s adj pl =
     (let loss_threshold = fmul pl (Fin b) in
      if fgt loss_threshold (Fin s) then Inr NInf
      else if fle loss_threshold (Fin (- s)) then Inr PInf
      else if adj = ADD then Inr (fmul (Fin (1 / 2)) (fsub (Fin s) loss_threshold))
      else Inr (fmul (Fin (1 / 2)) (fsub (Fin (- s)) loss_threshold)))"

definition LaplacePrivacyLoss_init ::
  "(real \<Rightarrow> rv_frozen) \<Rightarrow> real \<Rightarrow> real \<Rightarrow> real \<Rightarrow> AdjacencyType \<Rightarrow> error + LaplacePrivacyLoss" where
  "LaplacePrivacyLoss_init stats_laplace b s q adj =
     (if b \<le> 0 then Inl ValueError
      else case base_init_check s q of
        Some e \<Rightarrow> Inl e
      | None \<Rightarrow>
          Inr \<lparr> sensitivity = s, discrete_noise = False, sampling_prob = q,
                adjacency_type = adj,
                noise_cdf = cdf (stats_laplace b),
                noise_log_cdf = logcdf (stats_laplace b),
                privacy_loss_without_subsampling =
                  Laplace_privacy_loss_without_subsampling b s adj,
                inverse_privacy_loss_without_subsampling =
                  Laplace_inverse_privacy_loss_without_subsampling b s adj,
                parameter = b, laplace_random_variable = stats_laplace b \<rparr>)"

definition Laplace_privacy_loss_tail ::
  "LaplacePrivacyLoss \<Rightarrow> error + TailPrivacyLossDistribution" where
  "Laplace_privacy_loss_tail m =
     (let lower = (if adjacency_type m = ADD then Fin 0 else Fin (- sensitivity m));
          upper = (if adjacency_type m = ADD then Fin (sensitivity m) else Fin 0)
      in case privacy_loss m (PyFloat lower) of
           Inl e \<Rightarrow> Inl e
         | Inr loss_lower \<Rightarrow>
             (case privacy_loss m (PyFloat upper) of
                Inl e \<Rightarrow> Inl e
              | Inr loss_upper \<Rightarrow>
                  Inr \<lparr> lower_x_truncation = lower, upper_x_truncation = upper,
                        tail_probability_mass_function =
                          dict_set loss_upper (fsub (Fin 1) (mu_upper_cdf m upper))
                            (dict_set loss_lower (mu_upper_cdf m lower) []) \<rparr>))"

text \<open>
  The Laplace distribution of \<open>scipy.stats.laplace(scale = b)\<close>, by its closed form:
  the instances of the examples below are built over it.
\<close>

definition stats_laplace :: "real \<Rightarrow> rv_frozen" where
  "stats_laplace b =
     \<lparr> cdf = (\<lambda>x. case x of
                 NInf \<Rightarrow> Fin 0
               | Fin a \<Rightarrow> Fin (if a > 0 then 1 - exp (- a / b) / 2 else exp (a / b) / 2)
               | PInf \<Rightarrow> Fin 1
               | NaN \<Rightarrow> NaN),
       logcdf = (\<lambda>x. case x of
                 NInf \<Rightarrow> NInf
               | Fin a \<Rightarrow> Fin (if a > 0 then ln (1 - exp (- a / b) / 2) else a / b - ln 2)
               | PInf \<Rightarrow> Fin 0
               | NaN \<Rightarrow> NaN) \<rparr>"

section \<open>The Gaussian mechanism\<close>

record GaussianPrivacyLoss = AdditiveNoisePrivacyLoss +
  standard_deviation :: real
  gaussian_random_variable :: rv_continuous_frozen
  pessimistic_estimate :: bool
  log_mass_truncation_bound :: real

definition Gaussian_privacy_loss_without_subsampling ::
  "real \<Rightarrow> real \<Rightarrow> AdjacencyType \<Rightarrow> pynum \<Rightarrow> error + pyfloat" where
  "Gaussian_privacy_loss_without_subsampling sd s adj x =
     (if adj = ADD then
        Inr (fdiv (fmul (Fin s) (fsub (Fin (1 / 2 * s)) (to_float x))) (Fin (sd ^ 2)))
      else
        Inr (fdiv (fmul (Fin s) (fsub (Fin (- (1 / 2) * s)) (to_float x))) (Fin (sd ^ 2))))"

definition Gaussian_inverse_privacy_loss_without_subsampling ::
  "real \<Rightarrow> real \<Rightarrow> AdjacencyType \<Rightarrow> pyfloat \<Rightarrow> error + pyfloat" where
  "Gaussian_inverse_privacy_loss_without_subsampling sd s adj pl =
     (if adj = ADD then
        Inr (fsub (Fin (1 / 2 * s)) (fdiv (fmul pl (Fin (sd ^ 2))) (Fin s)))
      else
        Inr (fsub (Fin (- (1 / 2) * s)) (fdiv (fmul pl (Fin (sd ^ 2))) (Fin s))))"

definition GaussianPrivacyLoss_init ::
  "(real \<Rightarrow> rv_continuous_frozen) \<Rightarrow> real \<Rightarrow> real \<Rightarrow> bool \<Rightarrow> real \<Rightarrow> real
     \<Rightarrow> AdjacencyType \<Rightarrow> error + GaussianPrivacyLoss" where
  "GaussianPrivacyLoss_init stats_norm sd s pessimistic bound q adj =
     (if sd \<le> 0 then Inl ValueError
      else if bound > 0 then Inl ValueError
      else case base_init_check s q of
        Some e \<Rightarrow> Inl e
      | None \<Rightarrow>
          Inr \<lparr> sensitivity = s, discrete_noise = False, sampling_prob = q,
                adjacency_type = adj,
                noise_cdf = cdf (stats_norm sd),
                noise_log_cdf = logcdf (stats_norm sd),
                privacy_loss_without_subsampling =
                  Gaussian_privacy_loss_without_subsampling sd s adj,
                inverse_privacy_loss_without_subsampling =
                  Gaussian_inverse_privacy_loss_without_subsampling sd s adj,
                standard_deviation = sd, gaussian_random_variable = stats_norm sd,
                pessimistic_estimate = pessimistic, log_mass_truncation_bound = bound \<rparr>)"

definition Gaussian_privacy_loss_tail ::
  "GaussianPrivacyLoss \<Rightarrow> error + TailPrivacyLossDistribution" where
  "Gaussian_privacy_loss_tail m =
     (let lower0 = ppf (gaussian_random_variable m)
                     (Fin (1 / 2 * exp (log_mass_truncation_bound m)));
          upper0 = fneg lower0;
          upper = (if adjacency_type m = ADD then fadd upper0 (Fin (sensitivity m)) else upper0);
          lower = (if adjacency_type m = ADD then lower0 else fsub lower0 (Fin (sensitivity m)))
      in if pessimistic_estimate m then
           (case privacy_loss m (PyFloat upper) of
              Inl e \<Rightarrow> Inl e
            | Inr loss_upper \<Rightarrow>
                Inr \<lparr> lower_x_truncation = lower, upper_x_truncation = upper,
                      tail_probability_mass_function =
                        dict_set loss_upper (fsub (Fin 1) (mu_upper_cdf m upper))
                          (dict_set PInf (mu_upper_cdf m lower) []) \<rparr>)
         else
           (case privacy_loss m (PyFloat lower) of
              Inl e \<Rightarrow> Inl e
            | Inr loss_lower \<Rightarrow>
                Inr \<lparr> lower_x_truncation = lower, upper_x_truncation = upper,
                      tail_probability_mass_function =
                        dict_set loss_lower (mu_upper_cdf m lower) [] \<rparr>))"

section \<open>The discrete Laplace mechanism\<close>

text \<open>
  The discrete mechanisms require \<open>isinstance(sensitivity, int)\<close>.  The attribute
  \<open>sensitivity\<close> of the base class holds the value as a number; the field
  \<open>sensitivity_int\<close> of the extension holds the same attribute as the Python \<open>int\<close>
  it is, for the integer arithmetic of these classes.
\<close>

record DiscreteLaplacePrivacyLoss = AdditiveNoisePrivacyLoss +
  parameter_dl :: real
  discrete_laplace_random_variable :: rv_frozen
  sensitivity_int :: int

definition DiscreteLaplace_privacy_loss_without_subsampling ::
  "real \<Rightarrow> int \<Rightarrow> AdjacencyType \<Rightarrow> pynum \<Rightarrow> error + pyfloat" where
  "DiscreteLaplace_privacy_loss_without_subsampling a s adj x =
     (case x of
        PyFloat y \<Rightarrow> Inl ValueError
      | PyInt i \<Rightarrow>
          if adj = ADD then Inr (fmul (Fin (of_int (\<bar>i - s\<bar> - \<bar>i\<bar>))) (Fin a))
          else Inr (fmul (Fin (of_int (\<bar>i\<bar> - \<bar>i + s\<bar>))) (Fin a)))"

definition DiscreteLaplace_inverse_privacy_loss_without_subsampling ::
  "real \<Rightarrow> int \<Rightarrow> AdjacencyType \<Rightarrow> pyfloat \<Rightarrow> error + pyfloat" where
  "DiscreteLaplace_inverse_privacy_loss_without_subsampling a s adj pl =
     (let loss_threshold = fdiv pl (Fin a) in
      if fgt loss_threshold (Fin (of_int s)) then Inr NInf
      else if fle loss_threshold (Fin (- of_int s)) then Inr PInf
      else if adj = ADD then
        (case math_floor (fmul (Fin (1 / 2)) (fsub (Fin (of_int s)) loss_threshold)) of
           Inl e \<Rightarrow> Inl e
         | Inr k \<Rightarrow> Inr (Fin (of_int k)))
      else
        (case math_floor (fmul (Fin (1 / 2)) (fsub (Fin (- of_int s)) loss_threshold)) of
           Inl e \<Rightarrow> Inl e
         | Inr k \<Rightarrow> Inr (Fin (of_int k))))"

definition DiscreteLaplacePrivacyLoss_init ::
  "(real \<Rightarrow> rv_frozen) \<Rightarrow> real \<Rightarrow> pynum \<Rightarrow> real \<Rightarrow> AdjacencyType
     \<Rightarrow> error + DiscreteLaplacePrivacyLoss" where
  "DiscreteLaplacePrivacyLoss_init stats_dlaplace a sens q adj =
     (if a \<le> 0 then Inl ValueError
      else case sens of
        PyFloat y \<Rightarrow> Inl ValueError
      | PyInt s \<Rightarrow>
          (case base_init_check (of_int s) q of
             Some e \<Rightarrow> Inl e
           | None \<Rightarrow>
               Inr \<lparr> sensitivity = of_int s, discrete_noise = True, sampling_prob = q,
                     adjacency_type = adj,
                     noise_cdf = cdf (stats_dlaplace a),
                     noise_log_cdf = logcdf (stats_dlaplace a),
                     privacy_loss_without_subsampling =
                       DiscreteLaplace_privacy_loss_without_subsampling a s adj,
                     inverse_privacy_loss_without_subsampling =
                       DiscreteLaplace_inverse_privacy_loss_without_subsampling a s adj,
                     parameter_dl = a, discrete_laplace_random_variable = stats_dlaplace a,
                     sensitivity_int = s \<rparr>))"

definition DiscreteLaplace_privacy_loss_tail ::
  "DiscreteLaplacePrivacyLoss \<Rightarrow> error + TailPrivacyLossDistribution" where
  "DiscreteLaplace_privacy_loss_tail m =
     (let lower = (if adjacency_type m = ADD then 1 else 1 - sensitivity_int m);
          upper = (if adjacency_type m = ADD then sensitivity_int m - 1 else - 1)
      in case privacy_loss m (PyInt (lower - 1)) of
           Inl e \<Rightarrow> Inl e
         | Inr loss_lower \<Rightarrow>
             (case privacy_loss m (PyInt (upper + 1)) of
                Inl e \<Rightarrow> Inl e
              | Inr loss_upper \<Rightarrow>
                  Inr \<lparr> lower_x_truncation = Fin (of_int lower),
                        upper_x_truncation = Fin (of_int upper),
                        tail_probability_mass_function =
                          dict_set loss_upper
                            (fsub (Fin 1) (mu_upper_cdf m (Fin (of_int upper))))
                            (dict_set loss_lower (mu_upper_cdf m (Fin (of_int (lower - 1))))
                               []) \<rparr>))"

section \<open>The discrete Gaussian mechanism\<close>

text \<open>\<open>np.logaddexp.accumulate\<close>: the running log-sum-exp, from the left.\<close>

fun accumulate_from :: "pyfloat \<Rightarrow> pyfloat list \<Rightarrow> pyfloat list" where
  "accumulate_from acc [] = []"
| "accumulate_from acc (x # xs) = np_logaddexp acc x # accumulate_from (np_logaddexp acc x) xs"

fun logaddexp_accumulate :: "pyfloat list \<Rightarrow> pyfloat list" where
  "logaddexp_accumulate [] = []"
| "logaddexp_accumulate (x # xs) = x # accumulate_from x xs"

record DiscreteGaussianPrivacyLoss = AdditiveNoisePrivacyLoss +
  sigma :: real
  truncation_bound :: int
  offset :: int
  log_pmf_array :: "pyfloat list"
  log_cdf_array :: "pyfloat list"
  pmf_array :: "pyfloat list"
  cdf_array :: "pyfloat list"
  sensitivity_dg :: int

text \<open>
  The array lookup of \<open>noise_cdf\<close> and \<open>noise_log_cdf\<close>: the point is clipped into
  \<open>[-truncation_bound - 1, truncation_bound]\<close>, floored, and shifted by the offset.
  On \<open>NaN\<close> the integer conversion of numpy is unspecified; the model returns
  \<open>NaN\<close> there.
\<close>

definition array_lookup :: "int \<Rightarrow> int \<Rightarrow> pyfloat list \<Rightarrow> pyfloat \<Rightarrow> pyfloat" where
  "array_lookup bound off arr x =
     (case np_clip x (Fin (of_int (- 1 * bound - 1))) (Fin (of_int bound)) of
        Fin a \<Rightarrow> arr ! nat (\<lfloor>a\<rfloor> - off)
      | _ \<Rightarrow> NaN)"

definition privacy_loss_without_subsampling_for_add ::
  "real \<Rightarrow> int \<Rightarrow> int \<Rightarrow> pynum \<Rightarrow> error + pyfloat" where
  "privacy_loss_without_subsampling_for_add sg s bound x =
     (case x of
        PyFloat y \<Rightarrow> Inl ValueError
      | PyInt i \<Rightarrow>
          if i < - 1 * bound \<or> i > bound + s then Inl ValueError
          else if i > bound then Inr NInf
          else if i < s - bound then Inr PInf
          else Inr (fdiv (Fin (of_int s * (1 / 2 * of_int s - of_int i))) (Fin (sg ^ 2))))"

text \<open>\<open>x + self.sensitivity\<close> for an integer sensitivity keeps an \<open>int\<close> an \<open>int\<close>.\<close>

fun add_int :: "pynum \<Rightarrow> int \<Rightarrow> pynum" where
  "add_int (PyInt i) s = PyInt (i + s)"
| "add_int (PyFloat y) s = PyFloat (fadd y (Fin (of_int s)))"

definition DiscreteGaussian_privacy_loss_without_subsampling ::
  "real \<Rightarrow> int \<Rightarrow> int \<Rightarrow> AdjacencyType \<Rightarrow> pynum \<Rightarrow> error + pyfloat" where
  "DiscreteGaussian_privacy_loss_without_subsampling sg s bound adj x =
     (if adj = ADD then privacy_loss_without_subsampling_for_add sg s bound x
      else privacy_loss_without_subsampling_for_add sg s bound (add_int x s))"

definition inverse_privacy_loss_without_subsampling_for_add ::
  "real \<Rightarrow> int \<Rightarrow> int \<Rightarrow> pyfloat \<Rightarrow> error + int" where
  "inverse_privacy_loss_without_subsampling_for_add sg s bound pl =
     (if pl = NInf then Inr bound
      else math_floor
             (np_clip (fsub (Fin (1 / 2 * of_int s))
                            (fdiv (fmul pl (Fin (sg ^ 2))) (Fin (of_int s))))
                (Fin (of_int (s - bound - 1))) (Fin (of_int bound))))"

definition DiscreteGaussian_inverse_privacy_loss_without_subsampling ::
  "real \<Rightarrow> int \<Rightarrow> int \<Rightarrow> AdjacencyType \<Rightarrow> pyfloat \<Rightarrow> error + pyfloat" where
  "DiscreteGaussian_inverse_privacy_loss_without_subsampling sg s bound adj pl =
     (case inverse_privacy_loss_without_subsampling_for_add sg s bound pl of
        Inl e \<Rightarrow> Inl e
      | Inr k \<Rightarrow> if adj = ADD then Inr (Fin (of_int k)) else Inr (Fin (of_int (k - s))))"

definition DiscreteGaussianPrivacyLoss_init ::
  "real \<Rightarrow> pynum \<Rightarrow> int option \<Rightarrow> real \<Rightarrow> AdjacencyType
     \<Rightarrow> error + DiscreteGaussianPrivacyLoss" where
  "DiscreteGaussianPrivacyLoss_init sg sens tb q adj =
     (if sg \<le> 0 then Inl ValueError
      else case sens of
        PyFloat y \<Rightarrow> Inl ValueError
      | PyInt s \<Rightarrow>
          (let bound = (case tb of None \<Rightarrow> \<lceil>116 / 10 * sg\<rceil> | Some b \<Rightarrow> b) in
           if 2 * bound < s then Inl ValueError
           else
             let off = - 1 * bound - 1;
                 indices = [- 1 * bound .. bound];
                 log_pmf0 = NInf # map (\<lambda>i. Fin (- (1 / 2) * of_int (i ^ 2) / sg ^ 2)) indices;
                 log_cdf0 = logaddexp_accumulate log_pmf0;
                 log_pmf = map (\<lambda>v. fsub v (last log_cdf0)) log_pmf0;
                 log_cdf = map (\<lambda>v. fsub v (last log_cdf0)) log_cdf0
             in case base_init_check (of_int s) q of
                  Some e \<Rightarrow> Inl e
                | None \<Rightarrow>
                    Inr \<lparr> sensitivity = of_int s, discrete_noise = True, sampling_prob = q,
                          adjacency_type = adj,
                          noise_cdf = array_lookup bound off (map fexp log_cdf),
                          noise_log_cdf = array_lookup bound off log_cdf,
                          privacy_loss_without_subsampling =
                            DiscreteGaussian_privacy_loss_without_subsampling sg s bound adj,
                          inverse_privacy_loss_without_subsampling =
                            DiscreteGaussian_inverse_privacy_loss_without_subsampling
                              sg s bound adj,
                          sigma = sg, truncation_bound = bound, offset = off,
                          log_pmf_array = log_pmf, log_cdf_array = log_cdf,
                          pmf_array = map fexp log_pmf, cdf_array = map fexp log_cdf,
                          sensitivity_dg = s \<rparr>))"

definition DiscreteGaussian_privacy_loss_tail ::
  "DiscreteGaussianPrivacyLoss \<Rightarrow> error + TailPrivacyLossDistribution" where
  "DiscreteGaussian_privacy_loss_tail m =
     (let upper = (if adjacency_type m = ADD then truncation_bound m
                   else if sampling_prob m = 1 then truncation_bound m - sensitivity_dg m
                   else truncation_bound m);
          lower = (if adjacency_type m = ADD then
                     (if sampling_prob m = 1 then sensitivity_dg m - truncation_bound m
                      else - 1 * truncation_bound m)
                   else - 1 * truncation_bound m)
      in Inr \<lparr> lower_x_truncation = Fin (of_int lower),
               upper_x_truncation = Fin (of_int upper),
               tail_probability_mass_function =
                 dict_set PInf (mu_upper_cdf m (Fin (of_int (lower - 1)))) [] \<rparr>)"

text \<open>
  The discrete Laplace distribution of \<open>scipy.stats.dlaplace(a)\<close>, by its closed form
  on the floor of the point.
\<close>

definition stats_dlaplace :: "real \<Rightarrow> rv_frozen" where
  "stats_dlaplace a =
     \<lparr> cdf = (\<lambda>x. case x of
                 NInf \<Rightarrow> Fin 0
               | Fin r \<Rightarrow>
                   Fin (if \<lfloor>r\<rfloor> \<ge> 0 then 1 - exp (- a * of_int \<lfloor>r\<rfloor>) / (exp a + 1)
                        else exp (a * of_int (\<lfloor>r\<rfloor> + 1)) / (exp a + 1))
               | PInf \<Rightarrow> Fin 1
               | NaN \<Rightarrow> NaN),
       logcdf = (\<lambda>x. case x of
                 NInf \<Rightarrow> NInf
               | Fin r \<Rightarrow>
                   Fin (if \<lfloor>r\<rfloor> \<ge> 0 then ln (1 - exp (- a * of_int \<lfloor>r\<rfloor>) / (exp a + 1))
                        else a * of_int (\<lfloor>r\<rfloor> + 1) - ln (exp a + 1))
               | PInf \<Rightarrow> Fin 0
               | NaN \<Rightarrow> NaN) \<rparr>"

text \<open>
  The normal distribution of \<open>scipy.stats.norm(scale = sd)\<close>.  The standard normal CDF
  is given by its Maclaurin series
  \<open>1/2 + (1 / sqrt(2 pi)) * sum_k (-1)^k x^(2k+1) / (2^k k! (2k+1))\<close>, written as a power
  series with the coefficients \<open>phi_coeff\<close>; the quantile function is its inverse.
\<close>

definition phi_coeff :: "nat \<Rightarrow> real" where
  "phi_coeff n =
     (if even n then 0
      else (- 1 / 2) ^ ((n - 1) div 2) / (fact ((n - 1) div 2) * of_nat n))"

definition phi_series :: "real \<Rightarrow> real" where
  "phi_series x = (\<Sum>n. phi_coeff n * x ^ n)"

definition std_normal_cdf :: "real \<Rightarrow> real" where
  "std_normal_cdf x = 1 / 2 + phi_series x / sqrt (2 * pi)"

definition stats_norm :: "real \<Rightarrow> rv_continuous_frozen" where
  "stats_norm sd =
     \<lparr> cdf = (\<lambda>x. case x of
                 NInf \<Rightarrow> Fin 0
               | Fin a \<Rightarrow> Fin (std_normal_cdf (a / sd))
               | PInf \<Rightarrow> Fin 1
               | NaN \<Rightarrow> NaN),
       logcdf = (\<lambda>x. case x of
                 NInf \<Rightarrow> NInf
               | Fin a \<Rightarrow> Fin (ln (std_normal_cdf (a / sd)))
               | PInf \<Rightarrow> Fin 0
               | NaN \<Rightarrow> NaN),
       ppf = (\<lambda>p. case p of
                 Fin a \<Rightarrow>
                   (if a < 0 \<or> 1 < a then NaN
                    else if a = 0 then NInf
                    else if a = 1 then PInf
                    else Fin (sd * (THE z. std_normal_cdf z = a)))
               | _ \<Rightarrow> NaN) \<rparr>"

section \<open>The invariant of the tail\<close>

text \<open>
  The spec's invariant of a \<open>TailPrivacyLossDistribution\<close>, in its words: the sum of the
  values of the tail probability mass function, plus the mass of \<open>mu_upper\<close> inside
  \<open>[lower_x_truncation, upper_x_truncation]\<close>, accounts for the full probability space
  of \<open>mu_upper\<close>.  The mass inside the interval is the difference of \<open>mu_upper_cdf\<close> at
  its ends; for integer-valued noise the lower end itself is inside, so the CDF is taken
  one below it.
\<close>

definition tail_mass :: "TailPrivacyLossDistribution \<Rightarrow> pyfloat" where
  "tail_mass t = foldl fadd (Fin 0) (map snd (tail_probability_mass_function t))"

definition mass_inside ::
  "'a AdditiveNoisePrivacyLoss_scheme \<Rightarrow> TailPrivacyLossDistribution \<Rightarrow> pyfloat" where
  "mass_inside m t =
     (if discrete_noise m then
        fsub (mu_upper_cdf m (upper_x_truncation t))
             (mu_upper_cdf m (fsub (lower_x_truncation t) (Fin 1)))
      else
        fsub (mu_upper_cdf m (upper_x_truncation t))
             (mu_upper_cdf m (lower_x_truncation t)))"

definition accounted_mass ::
  "'a AdditiveNoisePrivacyLoss_scheme \<Rightarrow> TailPrivacyLossDistribution \<Rightarrow> pyfloat" where
  "accounted_mass m t = fadd (tail_mass t) (mass_inside m t)"

text \<open>The privacy loss under sub-sampling as a function of a finite loss without it.\<close>

definition subsampled_loss :: "AdjacencyType \<Rightarrow> real \<Rightarrow> real \<Rightarrow> real" where
  "subsampled_loss adj q l =
     (if q = 1 then l
      else if adj = ADD then - ln (q * exp (- l) + (1 - q))
      else ln (q * exp l + (1 - q)))"

section \<open>Facts about the float operations\<close>

lemma fsub_Fin [simp]: "fsub (Fin a) (Fin b) = Fin (a - b)"
  by (simp add: fsub_def)

lemma fgt_Fin [simp]: "fgt (Fin a) (Fin b) = (b < a)"
  by (simp add: fgt_def)

lemma fle_Fin [simp]: "fle (Fin a) (Fin b) = (a \<le> b)"
  by (auto simp: fle_def feq_def)

lemma fge_Fin [simp]: "fge (Fin a) (Fin b) = (b \<le> a)"
  by (simp add: fge_def)

section \<open>The Laplace mechanism\<close>

lemma LaplacePrivacyLoss_init_Inr:
  assumes "LaplacePrivacyLoss_init stats b s q adj = Inr m"
  shows "0 < b" and "0 < s" and "0 < q" and "q \<le> 1"
    and "m = \<lparr> sensitivity = s, discrete_noise = False, sampling_prob = q,
                adjacency_type = adj,
                noise_cdf = cdf (stats b),
                noise_log_cdf = logcdf (stats b),
                privacy_loss_without_subsampling =
                  Laplace_privacy_loss_without_subsampling b s adj,
                inverse_privacy_loss_without_subsampling =
                  Laplace_inverse_privacy_loss_without_subsampling b s adj,
                parameter = b, laplace_random_variable = stats b \<rparr>"
  using assms
  by (auto simp: LaplacePrivacyLoss_init_def base_init_check_def split: if_splits)

lemma LaplacePrivacyLoss_init_valid:
  assumes "0 < b" and "0 < s" and "0 < q" and "q \<le> 1"
  shows "LaplacePrivacyLoss_init stats b s q adj =
     Inr \<lparr> sensitivity = s, discrete_noise = False, sampling_prob = q,
                adjacency_type = adj,
                noise_cdf = cdf (stats b),
                noise_log_cdf = logcdf (stats b),
                privacy_loss_without_subsampling =
                  Laplace_privacy_loss_without_subsampling b s adj,
                inverse_privacy_loss_without_subsampling =
                  Laplace_inverse_privacy_loss_without_subsampling b s adj,
                parameter = b, laplace_random_variable = stats b \<rparr>"
  using assms by (simp add: LaplacePrivacyLoss_init_def base_init_check_def)

text \<open>
  Claim C2, as the code has it.  The Laplace instance with parameter 1, sensitivity 1,
  sampling probability 1 and REMOVE adjacency has privacy loss \<open>-1\<close> at 0 and at 10:
  under REMOVE the ramp \<open>(|x| - |x + 1|)\<close> has already reached its lower bound at 0, and
  it is at its upper bound \<open>1\<close> from \<open>-1\<close> downwards.  The values \<open>1\<close> at 0 and
  \<open>-1\<close> at 10 are those of the ADD instance.
\<close>

theorem C2_laplace_scenario:
  "then_call (LaplacePrivacyLoss_init stats 1 1 1 REMOVE) (\<lambda>m. privacy_loss m (PyInt 0))
     = Inr (Fin (- 1))
   \<and> then_call (LaplacePrivacyLoss_init stats 1 1 1 REMOVE) (\<lambda>m. privacy_loss m (PyInt 10))
     = Inr (Fin (- 1))
   \<and> then_call (LaplacePrivacyLoss_init stats 1 1 1 REMOVE) (\<lambda>m. privacy_loss m (PyInt (- 1)))
     = Inr (Fin 1)
   \<and> then_call (LaplacePrivacyLoss_init stats 1 1 1 ADD) (\<lambda>m. privacy_loss m (PyInt 0))
     = Inr (Fin 1)
   \<and> then_call (LaplacePrivacyLoss_init stats 1 1 1 ADD) (\<lambda>m. privacy_loss m (PyInt 10))
     = Inr (Fin (- 1))"
  by (simp add: then_call_def LaplacePrivacyLoss_init_def base_init_check_def
      privacy_loss_def Laplace_privacy_loss_without_subsampling_def)

theorem C2_counterexample:
  "then_call (LaplacePrivacyLoss_init stats_laplace 1 1 1 REMOVE)
     (\<lambda>m. privacy_loss m (PyInt 0)) \<noteq> Inr (Fin 1)"
  by (simp add: then_call_def LaplacePrivacyLoss_init_def base_init_check_def
      privacy_loss_def Laplace_privacy_loss_without_subsampling_def)



section \<open>The generic contract\<close>

text \<open>
  Claim C4.  Where the privacy loss without sub-sampling at \<open>x\<close> is defined and equals
  \<open>L\<close>, \<open>privacy_loss\<close> returns \<open>L\<close> itself when the sampling probability \<open>q\<close> is 1;
  otherwise it returns the negated collaborator value for \<open>(q, -L, 1 - q)\<close> under ADD and
  the collaborator value for \<open>(q, L, 1 - q)\<close> under REMOVE, which are
  \<open>-log(q * exp(-L) + (1 - q))\<close> and \<open>log(q * exp(L) + (1 - q))\<close>.
\<close>

theorem C4_privacy_loss_subsampling:
  assumes "privacy_loss_without_subsampling m x = Inr L"
  shows "privacy_loss m x =
           Inr (if sampling_prob m = 1 then L
                else if adjacency_type m = ADD then
                  fneg (log_a_times_exp_b_plus_c (sampling_prob m) (fneg L) (1 - sampling_prob m))
                else log_a_times_exp_b_plus_c (sampling_prob m) L (1 - sampling_prob m))
       \<and> privacy_loss m x =
           Inr (if sampling_prob m = 1 then L
                else if adjacency_type m = ADD then
                  fneg (np_log (fadd (fmul (Fin (sampling_prob m)) (fexp (fneg L)))
                                     (Fin (1 - sampling_prob m))))
                else np_log (fadd (fmul (Fin (sampling_prob m)) (fexp L))
                                  (Fin (1 - sampling_prob m))))
       \<and> (0 < sampling_prob m \<and> sampling_prob m < 1 \<and> L = Fin l \<longrightarrow>
            privacy_loss m x =
              Inr (Fin (if adjacency_type m = ADD
                        then - ln (sampling_prob m * exp (- l) + (1 - sampling_prob m))
                        else ln (sampling_prob m * exp l + (1 - sampling_prob m)))))"
proof -
  have pos: "0 < q * exp t + (1 - q)" if "0 < q" "q < 1" for q t :: real
  proof -
    have "0 < q * exp t" using that by simp
    then show ?thesis using that by linarith
  qed
  show ?thesis
    using assms pos [of "sampling_prob m" l] pos [of "sampling_prob m" "- l"]
    by (auto simp: privacy_loss_def log_a_times_exp_b_plus_c_def)
qed

theorem C4_witness:
  "then_call (LaplacePrivacyLoss_init stats_laplace 1 1 (1 / 2) REMOVE)
      (\<lambda>m. privacy_loss m (PyInt (- 1))) = Inr (Fin (ln (1 / 2 * exp 1 + (1 - 1 / 2))))"
proof -
  let ?m = "\<lparr> sensitivity = 1, discrete_noise = False, sampling_prob = 1 / 2,
                adjacency_type = REMOVE,
                noise_cdf = cdf (stats_laplace 1),
                noise_log_cdf = logcdf (stats_laplace 1),
                privacy_loss_without_subsampling =
                  Laplace_privacy_loss_without_subsampling 1 1 REMOVE,
                inverse_privacy_loss_without_subsampling =
                  Laplace_inverse_privacy_loss_without_subsampling 1 1 REMOVE,
                parameter = 1, laplace_random_variable = stats_laplace 1 \<rparr>"
  have L: "privacy_loss_without_subsampling ?m (PyInt (- 1)) = Inr (Fin 1)"
    by (simp add: Laplace_privacy_loss_without_subsampling_def)
  show ?thesis
    using C4_privacy_loss_subsampling [OF L, THEN conjunct2, THEN conjunct2, of 1]
    by (simp add: then_call_def LaplacePrivacyLoss_init_valid)
qed

text \<open>
  Claim C7.  \<open>mu_upper_cdf(x)\<close> is \<open>noise_cdf(x)\<close> under ADD; under REMOVE it is
  \<open>noise_cdf(x + sensitivity)\<close> when \<open>q = 1\<close> and
  \<open>(1 - q) * noise_cdf(x) + q * noise_cdf(x + sensitivity)\<close> otherwise, and where the two
  values of the noise CDF are finite this mixture is its value for every \<open>q\<close>, the
  simplified path included.  Dually \<open>mu_lower_log_cdf(x)\<close> is \<open>noise_log_cdf(x)\<close> under
  REMOVE; under ADD it is \<open>noise_log_cdf(x - sensitivity)\<close> when \<open>q = 1\<close> and otherwise
  the log-sum-exp of \<open>log1p(-q) + noise_log_cdf(x)\<close> and
  \<open>log(q) + noise_log_cdf(x - sensitivity)\<close>, which for finite values of the noise log-CDF
  is the logarithm of the mixture.
\<close>

theorem C7_mu_upper_cdf_mu_lower_log_cdf:
  "mu_upper_cdf m x =
     (if adjacency_type m = ADD then noise_cdf m x
      else if sampling_prob m = 1 then noise_cdf m (fadd x (Fin (sensitivity m)))
      else fadd (fmul (Fin (1 - sampling_prob m)) (noise_cdf m x))
                (fmul (Fin (sampling_prob m)) (noise_cdf m (fadd x (Fin (sensitivity m))))))
   \<and> mu_lower_log_cdf m x =
     (if adjacency_type m = REMOVE then noise_log_cdf m x
      else if sampling_prob m = 1 then noise_log_cdf m (fadd x (Fin (- sensitivity m)))
      else np_logaddexp
             (fadd (np_log1p (Fin (- sampling_prob m))) (noise_log_cdf m x))
             (fadd (np_log (Fin (sampling_prob m)))
                   (noise_log_cdf m (fadd x (Fin (- sensitivity m))))))
   \<and> (adjacency_type m = REMOVE \<and> noise_cdf m x = Fin u
        \<and> noise_cdf m (fadd x (Fin (sensitivity m))) = Fin v \<longrightarrow>
        mu_upper_cdf m x = Fin ((1 - sampling_prob m) * u + sampling_prob m * v))
   \<and> (adjacency_type m = ADD \<and> 0 < sampling_prob m \<and> sampling_prob m \<le> 1
        \<and> noise_log_cdf m x = Fin u'
        \<and> noise_log_cdf m (fadd x (Fin (- sensitivity m))) = Fin v' \<longrightarrow>
        mu_lower_log_cdf m x
          = Fin (ln ((1 - sampling_prob m) * exp u' + sampling_prob m * exp v')))"
proof -
  have adj: "a \<noteq> ADD \<longleftrightarrow> a = REMOVE" for a
    by (cases a) simp_all
  have mix: "exp (ln (1 - q) + u') + exp (ln q + v') = (1 - q) * exp u' + q * exp v'"
    if "0 < q" "q < 1" for q :: real
    using that by (simp add: exp_add)
  show ?thesis
    using mix [of "sampling_prob m"]
    by (cases "adjacency_type m")
       (auto simp: mu_upper_cdf_def mu_lower_log_cdf_def np_log1p_def adj)
qed

theorem C7_witness:
  "then_call (LaplacePrivacyLoss_init stats_laplace 1 1 (1 / 2) REMOVE)
      (\<lambda>m. Inr (mu_upper_cdf m (Fin 0)) :: error + pyfloat)
     = Inr (Fin ((1 - 1 / 2) * (1 / 2) + 1 / 2 * (1 - exp (- 1) / 2)))
   \<and> then_call (LaplacePrivacyLoss_init stats_laplace 1 1 (1 / 2) ADD)
      (\<lambda>m. Inr (mu_lower_log_cdf m (Fin 0)) :: error + pyfloat)
     = Inr (Fin (ln ((1 - 1 / 2) * exp (- ln 2) + 1 / 2 * exp (- 1 - ln 2))))"
proof -
  let ?r = "\<lparr> sensitivity = 1, discrete_noise = False, sampling_prob = 1 / 2,
                adjacency_type = REMOVE,
                noise_cdf = cdf (stats_laplace 1),
                noise_log_cdf = logcdf (stats_laplace 1),
                privacy_loss_without_subsampling =
                  Laplace_privacy_loss_without_subsampling 1 1 REMOVE,
                inverse_privacy_loss_without_subsampling =
                  Laplace_inverse_privacy_loss_without_subsampling 1 1 REMOVE,
                parameter = 1, laplace_random_variable = stats_laplace 1 \<rparr>"
  let ?a = "\<lparr> sensitivity = 1, discrete_noise = False, sampling_prob = 1 / 2,
                adjacency_type = ADD,
                noise_cdf = cdf (stats_laplace 1),
                noise_log_cdf = logcdf (stats_laplace 1),
                privacy_loss_without_subsampling =
                  Laplace_privacy_loss_without_subsampling 1 1 ADD,
                inverse_privacy_loss_without_subsampling =
                  Laplace_inverse_privacy_loss_without_subsampling 1 1 ADD,
                parameter = 1, laplace_random_variable = stats_laplace 1 \<rparr>"
  have c0: "cdf (stats_laplace 1) (Fin 0) = Fin (1 / 2)"
    and c1: "cdf (stats_laplace 1) (Fin 1) = Fin (1 - exp (- 1) / 2)"
    and l0: "logcdf (stats_laplace 1) (Fin 0) = Fin (- ln 2)"
    and l1: "logcdf (stats_laplace 1) (Fin (- 1)) = Fin (- 1 - ln 2)"
    by (simp_all add: stats_laplace_def)
  have "mu_upper_cdf ?r (Fin 0) = Fin ((1 - 1 / 2) * (1 / 2) + 1 / 2 * (1 - exp (- 1) / 2))"
    using C7_mu_upper_cdf_mu_lower_log_cdf
      [where m = ?r and x = "Fin 0" and u = "1 / 2" and v = "1 - exp (- 1) / 2",
        THEN conjunct2, THEN conjunct2, THEN conjunct1]
    by (simp add: c0 c1)
  moreover have "mu_lower_log_cdf ?a (Fin 0)
      = Fin (ln ((1 - 1 / 2) * exp (- ln 2) + 1 / 2 * exp (- 1 - ln 2)))"
    using C7_mu_upper_cdf_mu_lower_log_cdf
      [where m = ?a and x = "Fin 0" and u' = "- ln 2" and v' = "- 1 - ln 2",
        THEN conjunct2, THEN conjunct2, THEN conjunct2]
    by (simp add: l0 l1)
  ultimately show ?thesis
    by (simp add: then_call_def LaplacePrivacyLoss_init_valid)
qed

lemma isclose_refl [simp]: "x \<noteq> NaN \<Longrightarrow> isclose x x"
  by (cases x) simp_all








lemma length_mask_assign [simp]: "length (mask_assign ds bs vs) = length ds"
  by (induction ds bs vs rule: mask_assign.induct) simp_all









section \<open>The discrete mechanisms\<close>

lemma DiscreteLaplacePrivacyLoss_init_Inr:
  assumes "DiscreteLaplacePrivacyLoss_init stats a sens q adj = Inr m"
  shows "\<exists>s. sens = PyInt s \<and> 0 < a \<and> 0 < s \<and> 0 < q \<and> q \<le> 1
       \<and> m = \<lparr> sensitivity = of_int s, discrete_noise = True, sampling_prob = q,
                     adjacency_type = adj,
                     noise_cdf = cdf (stats a),
                     noise_log_cdf = logcdf (stats a),
                     privacy_loss_without_subsampling =
                       DiscreteLaplace_privacy_loss_without_subsampling a s adj,
                     inverse_privacy_loss_without_subsampling =
                       DiscreteLaplace_inverse_privacy_loss_without_subsampling a s adj,
                     parameter_dl = a, discrete_laplace_random_variable = stats a,
                     sensitivity_int = s \<rparr>"
  using assms
  by (cases sens)
     (auto simp: DiscreteLaplacePrivacyLoss_init_def base_init_check_def split: if_splits)

lemma DiscreteLaplacePrivacyLoss_init_valid:
  assumes "0 < a" and "0 < s" and "0 < q" and "q \<le> 1"
  shows "DiscreteLaplacePrivacyLoss_init stats a (PyInt s) q adj =
     Inr \<lparr> sensitivity = of_int s, discrete_noise = True, sampling_prob = q,
                     adjacency_type = adj,
                     noise_cdf = cdf (stats a),
                     noise_log_cdf = logcdf (stats a),
                     privacy_loss_without_subsampling =
                       DiscreteLaplace_privacy_loss_without_subsampling a s adj,
                     inverse_privacy_loss_without_subsampling =
                       DiscreteLaplace_inverse_privacy_loss_without_subsampling a s adj,
                     parameter_dl = a, discrete_laplace_random_variable = stats a,
                     sensitivity_int = s \<rparr>"
  using assms by (simp add: DiscreteLaplacePrivacyLoss_init_def base_init_check_def)

text \<open>The fields of a constructed discrete Gaussian instance that the proofs use.\<close>

lemma DiscreteGaussianPrivacyLoss_init_Inr:
  assumes "DiscreteGaussianPrivacyLoss_init sg sens tb q adj = Inr m"
  shows "\<exists>s. sens = PyInt s \<and> 0 < sg \<and> 0 < s \<and> 0 < q \<and> q \<le> 1
       \<and> s \<le> 2 * truncation_bound m
       \<and> truncation_bound m = (case tb of None \<Rightarrow> \<lceil>116 / 10 * sg\<rceil> | Some b \<Rightarrow> b)
       \<and> sensitivity m = of_int s \<and> sensitivity_dg m = s
       \<and> sampling_prob m = q \<and> adjacency_type m = adj
       \<and> offset m = - 1 * truncation_bound m - 1
       \<and> privacy_loss_without_subsampling m =
            DiscreteGaussian_privacy_loss_without_subsampling sg s (truncation_bound m) adj
       \<and> inverse_privacy_loss_without_subsampling m =
            DiscreteGaussian_inverse_privacy_loss_without_subsampling sg s
              (truncation_bound m) adj
       \<and> noise_cdf m = array_lookup (truncation_bound m) (offset m) (cdf_array m)
       \<and> noise_log_cdf m = array_lookup (truncation_bound m) (offset m) (log_cdf_array m)
       \<and> log_pmf_array m =
            map (\<lambda>v. fsub v (last (logaddexp_accumulate
                   (NInf # map (\<lambda>i. Fin (- (1 / 2) * of_int (i ^ 2) / sg ^ 2))
                      [- 1 * truncation_bound m .. truncation_bound m]))))
              (NInf # map (\<lambda>i. Fin (- (1 / 2) * of_int (i ^ 2) / sg ^ 2))
                      [- 1 * truncation_bound m .. truncation_bound m])
       \<and> log_cdf_array m =
            map (\<lambda>v. fsub v (last (logaddexp_accumulate
                   (NInf # map (\<lambda>i. Fin (- (1 / 2) * of_int (i ^ 2) / sg ^ 2))
                      [- 1 * truncation_bound m .. truncation_bound m]))))
              (logaddexp_accumulate
                   (NInf # map (\<lambda>i. Fin (- (1 / 2) * of_int (i ^ 2) / sg ^ 2))
                      [- 1 * truncation_bound m .. truncation_bound m]))
       \<and> pmf_array m = map fexp (log_pmf_array m)
       \<and> cdf_array m = map fexp (log_cdf_array m)"
  using assms
  by (cases sens)
     (auto simp: DiscreteGaussianPrivacyLoss_init_def base_init_check_def Let_def
        split: if_splits)



lemma length_accumulate_from [simp]: "length (accumulate_from acc xs) = length xs"
  by (induction xs arbitrary: acc) simp_all

lemma accumulate_from_finite:
  "\<exists>r. last (acc # accumulate_from acc (map (\<lambda>i. Fin (f i)) is)) = Fin r"
  if "\<exists>a. acc = Fin a"
  using that
proof (induction "is" arbitrary: acc)
  case Nil
  then show ?case by simp
next
  case (Cons i "is")
  from Cons.prems obtain a where a: "acc = Fin a" by blast
  have "\<exists>b. np_logaddexp acc (Fin (f i)) = Fin b"
    by (simp add: a)
  from Cons.IH [OF this] show ?case
    by simp
qed

lemma last_logaddexp_accumulate_finite:
  assumes "is \<noteq> []"
  shows "\<exists>r. last (logaddexp_accumulate (NInf # map (\<lambda>i. Fin (f i)) is)) = Fin r"
proof -
  obtain i is' where "is": "is = i # is'"
    using assms by (cases "is") auto
  have "\<exists>r. last (Fin (f i) # accumulate_from (Fin (f i)) (map (\<lambda>i. Fin (f i)) is')) = Fin r"
    by (rule accumulate_from_finite) blast
  then show ?thesis
    by (simp add: "is")
qed

lemma length_logaddexp_accumulate [simp]: "length (logaddexp_accumulate xs) = length xs"
  by (cases xs) simp_all

lemma logaddexp_accumulate_Nil_iff [simp]: "logaddexp_accumulate xs = [] \<longleftrightarrow> xs = []"
  by (cases xs) simp_all



section \<open>The normal distribution\<close>

lemma phi_odd_terms_summable:
  "summable (\<lambda>k. (- 1 / 2) ^ k / (fact k * of_nat (2 * k + 1)) * x ^ (2 * k + 1) :: real)"
proof (rule summable_comparison_test')
  show "summable (\<lambda>k. \<bar>x\<bar> * norm ((x\<^sup>2 / 2) ^ k /\<^sub>R fact k))"
    by (intro summable_mult summable_norm_exp)
  fix k :: nat
  assume "k \<ge> 0"
  have pw: "\<bar>x\<bar> ^ (2 * k + 1) = \<bar>x\<bar> * (x\<^sup>2) ^ k"
    by (simp add: power_mult)
  have "norm ((- 1 / 2) ^ k / (fact k * of_nat (2 * k + 1)) * x ^ (2 * k + 1))
      = (1 / 2) ^ k / (fact k * of_nat (2 * k + 1)) * \<bar>x\<bar> ^ (2 * k + 1)"
    unfolding real_norm_def abs_mult abs_divide power_abs by simp
  also have "\<dots> = (\<bar>x\<bar> * ((x\<^sup>2 / 2) ^ k / fact k)) / of_nat (2 * k + 1)"
    unfolding pw by (simp add: power_divide)
  also have "\<dots> \<le> (\<bar>x\<bar> * ((x\<^sup>2 / 2) ^ k / fact k)) / 1"
    by (rule divide_left_mono) simp_all
  also have "\<dots> = \<bar>x\<bar> * norm ((x\<^sup>2 / 2) ^ k /\<^sub>R fact k)"
  proof -
    have "0 \<le> (x\<^sup>2 / 2) ^ k" by simp
    then have "norm ((x\<^sup>2 / 2) ^ k /\<^sub>R fact k) = (x\<^sup>2 / 2) ^ k / fact k"
      by (simp add: abs_mult field_simps)
    then show ?thesis by simp
  qed
  finally show "norm ((- 1 / 2) ^ k / (fact k * of_nat (2 * k + 1)) * x ^ (2 * k + 1))
      \<le> \<bar>x\<bar> * norm ((x\<^sup>2 / 2) ^ k /\<^sub>R fact k)" .
qed

lemma phi_summable: "summable (\<lambda>n. phi_coeff n * x ^ n)"
proof -
  let ?g = "\<lambda>k. (- 1 / 2) ^ k / (fact k * of_nat (2 * k + 1)) * x ^ (2 * k + 1)"
  have "(\<lambda>n. if even n then 0 else ?g ((n - 1) div 2)) sums suminf ?g"
    by (rule sums_if') (rule summable_sums [OF phi_odd_terms_summable])
  moreover have "(\<lambda>n. if even n then 0 else ?g ((n - 1) div 2)) = (\<lambda>n. phi_coeff n * x ^ n)"
  proof
    fix n :: nat
    show "(if even n then 0 else ?g ((n - 1) div 2)) = phi_coeff n * x ^ n"
    proof (cases "even n")
      case True
      then show ?thesis by (simp add: phi_coeff_def)
    next
      case False
      then have "2 * ((n - 1) div 2) + 1 = n"
        by (simp add: odd_two_times_div_two_succ)
      then show ?thesis
        using False by (simp add: phi_coeff_def)
    qed
  qed
  ultimately show ?thesis
    by (auto simp: sums_iff)
qed

lemma diffs_phi_coeff:
  "diffs phi_coeff n * x ^ n
     = (if even n then (- (x\<^sup>2 / 2)) ^ (n div 2) /\<^sub>R fact (n div 2) else 0)"
proof (cases "even n")
  case True
  then obtain k where k: "n = 2 * k" by (auto elim: evenE)
  have c: "phi_coeff (Suc (2 * k)) = (- 1 / 2) ^ k / (fact k * of_nat (Suc (2 * k)))"
    by (simp add: phi_coeff_def)
  have nz: "(of_nat (Suc (2 * k)) :: real) \<noteq> 0"
    by (simp del: of_nat_Suc)
  have d: "diffs phi_coeff (2 * k) = (- 1 / 2) ^ k / fact k"
    unfolding diffs_def c using nz by (simp add: field_simps del: of_nat_Suc)
  have p: "(- 1 / 2) ^ k * x ^ (2 * k) = (- (x\<^sup>2 / 2)) ^ k"
    by (simp add: power_mult power_mult_distrib [symmetric])
  have "diffs phi_coeff (2 * k) * x ^ (2 * k) = (- 1 / 2) ^ k * x ^ (2 * k) / fact k"
    unfolding d by (simp only: times_divide_eq_left)
  also have "\<dots> = (- (x\<^sup>2 / 2)) ^ k / fact k"
    by (simp only: p)
  also have "\<dots> = (if even (2 * k) then (- (x\<^sup>2 / 2)) ^ ((2 * k) div 2)
                        /\<^sub>R fact ((2 * k) div 2) else 0)"
    by (simp add: field_simps)
  finally show ?thesis
    unfolding k .
next
  case False
  then show ?thesis
    by (simp add: diffs_def phi_coeff_def)
qed

lemma phi_series_deriv_sum: "(\<Sum>n. diffs phi_coeff n * x ^ n) = exp (- (x\<^sup>2 / 2))"
proof -
  have "(\<lambda>n. if even n then (- (x\<^sup>2 / 2)) ^ (n div 2) /\<^sub>R fact (n div 2)
              else (\<lambda>k. 0) ((n - 1) div 2)) sums (0 + exp (- (x\<^sup>2 / 2)))"
    by (rule sums_if [OF sums_zero exp_converges])
  then have "(\<lambda>n. diffs phi_coeff n * x ^ n) sums exp (- (x\<^sup>2 / 2))"
    by (simp add: diffs_phi_coeff)
  then show ?thesis
    by (rule sums_unique [symmetric])
qed

lemma DERIV_phi_series: "DERIV phi_series x :> exp (- (x\<^sup>2 / 2))"
proof -
  have "((\<lambda>x. \<Sum>n. phi_coeff n * x ^ n) has_field_derivative (\<Sum>n. diffs phi_coeff n * x ^ n)) (at x)"
    by (rule termdiffs_strong_converges_everywhere) (rule phi_summable)
  then show ?thesis
    by (simp add: phi_series_deriv_sum phi_series_def [abs_def])
qed

lemma phi_series_0 [simp]: "phi_series 0 = 0"
  by (simp add: phi_series_def phi_coeff_def)

lemma phi_series_strict_mono: "x < y \<Longrightarrow> phi_series x < phi_series y"
  by (rule DERIV_pos_imp_increasing) (auto intro!: exI DERIV_phi_series)

lemma phi_series_le_id: "0 \<le> x \<Longrightarrow> phi_series x \<le> x"
proof -
  assume x: "0 \<le> x"
  have "(\<lambda>t. phi_series t - t) x \<le> (\<lambda>t. phi_series t - t) 0"
  proof (rule DERIV_nonpos_imp_nonincreasing [OF x])
    fix t :: real
    have "DERIV (\<lambda>t. phi_series t - t) t :> exp (- (t\<^sup>2 / 2)) - 1"
      by (intro derivative_intros DERIV_phi_series)
    moreover have "exp (- (t\<^sup>2 / 2)) - 1 \<le> 0"
      by simp
    ultimately show "\<exists>y. DERIV (\<lambda>t. phi_series t - t) t :> y \<and> y \<le> 0"
      by blast
  qed
  then show ?thesis by simp
qed

lemma std_normal_cdf_0 [simp]: "std_normal_cdf 0 = 1 / 2"
  by (simp add: std_normal_cdf_def)

lemma std_normal_cdf_strict_mono: "x < y \<Longrightarrow> std_normal_cdf x < std_normal_cdf y"
  by (simp add: std_normal_cdf_def phi_series_strict_mono divide_strict_right_mono)

lemma std_normal_cdf_inj: "std_normal_cdf x = std_normal_cdf y \<Longrightarrow> x = y"
  using std_normal_cdf_strict_mono [of x y] std_normal_cdf_strict_mono [of y x]
  by (cases x y rule: linorder_cases) simp_all

lemma phi_series_1_less: "phi_series 1 < 1"
proof -
  have "(\<lambda>t. phi_series t - t) 1 < (\<lambda>t. phi_series t - t) (1 / 2)"
  proof (rule DERIV_neg_imp_decreasing [where f = "\<lambda>t. phi_series t - t"])
    fix t :: real
    assume t: "1 / 2 \<le> t" "t \<le> 1"
    have "DERIV (\<lambda>t. phi_series t - t) t :> exp (- (t\<^sup>2 / 2)) - 1"
      by (intro derivative_intros DERIV_phi_series)
    moreover have "0 < t\<^sup>2"
      using t by simp
    then have "exp (- (t\<^sup>2 / 2)) - 1 < 0"
      by simp
    ultimately show "\<exists>y. DERIV (\<lambda>t. phi_series t - t) t :> y \<and> y < 0"
      by blast
  qed simp
  moreover have "phi_series (1 / 2) \<le> 1 / 2"
    by (rule phi_series_le_id) simp
  ultimately show ?thesis by simp
qed

lemma std_normal_cdf_1_less: "std_normal_cdf 1 < 1"
proof -
  have pos: "0 \<le> phi_series 1"
    using phi_series_strict_mono [of 0 1] by simp
  have sq: "2 \<le> sqrt (2 * pi)"
    using pi_ge_two by (intro real_le_rsqrt) simp
  have "phi_series 1 / sqrt (2 * pi) \<le> phi_series 1 / 2"
    using pos sq by (intro divide_left_mono) simp_all
  also have "\<dots> < 1 / 2"
    using phi_series_1_less by simp
  finally show ?thesis
    unfolding std_normal_cdf_def by linarith
qed

lemma std_normal_quantile_half: "(THE z. std_normal_cdf z = 1 / 2) = 0"
  by (rule the_equality) (auto intro: std_normal_cdf_inj)

lemma stats_norm_ppf_half [simp]: "ppf (stats_norm sd) (Fin (1 / 2)) = Fin 0"
  using std_normal_quantile_half by (simp add: stats_norm_def)

lemma stats_norm_cdf_Fin [simp]: "cdf (stats_norm sd) (Fin a) = Fin (std_normal_cdf (a / sd))"
  by (simp add: stats_norm_def)

section \<open>Adjacency types without sub-sampling\<close>

lemma fadd_shift_back [simp]: "fadd (fadd x (Fin (- s))) (Fin s) = x"
  by (cases x) simp_all

lemma collect_shifted:
  assumes "\<And>L. g L = (case f L of Inl e \<Rightarrow> Inl e | Inr x \<Rightarrow> Inr (h x))"
  shows "collect (map g es) = (case collect (map f es) of Inl e \<Rightarrow> Inl e | Inr xs \<Rightarrow> Inr (map h xs))"
proof (induction es)
  case Nil
  then show ?case by simp
next
  case (Cons e es)
  then show ?case
    by (cases "f e"; cases "collect (map f es)") (simp_all add: assms)
qed

lemma get_delta_adjacency_free:
  assumes q: "sampling_prob a = 1" "sampling_prob r = 1"
    and adj: "adjacency_type a = ADD" "adjacency_type r = REMOVE"
    and same: "sensitivity r = sensitivity a" "noise_cdf r = noise_cdf a"
      "noise_log_cdf r = noise_log_cdf a"
    and inv: "\<And>L. inverse_privacy_loss_without_subsampling r L =
      (case inverse_privacy_loss_without_subsampling a L of
         Inl e \<Rightarrow> Inl e
       | Inr x \<Rightarrow> Inr (fadd x (Fin (- sensitivity a))))"
  shows "get_delta_for_epsilon r epsilon = get_delta_for_epsilon a epsilon"
proof -
  have inv': "inverse_privacy_loss r L =
      (case inverse_privacy_loss a L of
         Inl e \<Rightarrow> Inl e
       | Inr x \<Rightarrow> Inr (fadd x (Fin (- sensitivity a))))" for L
    using q inv by (simp add: inverse_privacy_loss_def)
  have up: "mu_upper_cdf r (fadd x (Fin (- sensitivity a))) = mu_upper_cdf a x" for x
    using q adj same by (simp add: mu_upper_cdf_def)
  have lo: "mu_lower_log_cdf r (fadd x (Fin (- sensitivity a))) = mu_lower_log_cdf a x" for x
    using q adj same by (simp add: mu_lower_log_cdf_def)
  have arr: "get_delta_for_epsilons r es = get_delta_for_epsilons a es" for es
    unfolding get_delta_for_epsilons_def Let_def
    using q
    by (simp add: collect_shifted [where g = "inverse_privacy_loss r" and f = "inverse_privacy_loss a",
          OF inv']
        up lo comp_def split: sum.splits)
  show ?thesis
    by (cases epsilon) (simp_all add: get_delta_for_epsilon_def arr)
qed

lemma GaussianPrivacyLoss_init_Inr:
  assumes "GaussianPrivacyLoss_init stats sd s pe bound q adj = Inr m"
  shows "0 < sd" and "bound \<le> 0" and "0 < s" and "0 < q" and "q \<le> 1"
    and "m = \<lparr> sensitivity = s, discrete_noise = False, sampling_prob = q,
                adjacency_type = adj,
                noise_cdf = cdf (stats sd),
                noise_log_cdf = logcdf (stats sd),
                privacy_loss_without_subsampling =
                  Gaussian_privacy_loss_without_subsampling sd s adj,
                inverse_privacy_loss_without_subsampling =
                  Gaussian_inverse_privacy_loss_without_subsampling sd s adj,
                standard_deviation = sd, gaussian_random_variable = stats sd,
                pessimistic_estimate = pe, log_mass_truncation_bound = bound \<rparr>"
  using assms
  by (auto simp: GaussianPrivacyLoss_init_def base_init_check_def split: if_splits)

lemma GaussianPrivacyLoss_init_valid:
  assumes "0 < sd" and "bound \<le> 0" and "0 < s" and "0 < q" and "q \<le> 1"
  shows "GaussianPrivacyLoss_init stats sd s pe bound q adj =
      Inr \<lparr> sensitivity = s, discrete_noise = False, sampling_prob = q,
                adjacency_type = adj,
                noise_cdf = cdf (stats sd),
                noise_log_cdf = logcdf (stats sd),
                privacy_loss_without_subsampling =
                  Gaussian_privacy_loss_without_subsampling sd s adj,
                inverse_privacy_loss_without_subsampling =
                  Gaussian_inverse_privacy_loss_without_subsampling sd s adj,
                standard_deviation = sd, gaussian_random_variable = stats sd,
                pessimistic_estimate = pe, log_mass_truncation_bound = bound \<rparr>"
  using assms by (simp add: GaussianPrivacyLoss_init_def base_init_check_def)

lemma Laplace_inverse_shift:
  assumes "0 < b"
  shows "Laplace_inverse_privacy_loss_without_subsampling b s REMOVE L =
     (case Laplace_inverse_privacy_loss_without_subsampling b s ADD L of
        Inl e \<Rightarrow> Inl e
      | Inr x \<Rightarrow> Inr (fadd x (Fin (- s))))"
  using assms
  by (cases L)
     (simp_all add: Laplace_inverse_privacy_loss_without_subsampling_def Let_def
        fgt_def fle_def feq_def fsub_def)

lemma fsub_shift: "fsub (Fin (c - s)) y = fadd (fsub (Fin c) y) (Fin (- s))"
  by (cases y) (simp_all add: fsub_def)

lemma Gaussian_inverse_shift:
  "Gaussian_inverse_privacy_loss_without_subsampling sd s REMOVE L =
     (case Gaussian_inverse_privacy_loss_without_subsampling sd s ADD L of
        Inl e \<Rightarrow> Inl e
      | Inr x \<Rightarrow> Inr (fadd x (Fin (- s))))"
  using fsub_shift [of "1 / 2 * s" s]
  by (simp add: Gaussian_inverse_privacy_loss_without_subsampling_def)

lemma DiscreteLaplace_inverse_shift:
  "DiscreteLaplace_inverse_privacy_loss_without_subsampling a s REMOVE L =
     (case DiscreteLaplace_inverse_privacy_loss_without_subsampling a s ADD L of
        Inl e \<Rightarrow> Inl e
      | Inr x \<Rightarrow> Inr (fadd x (Fin (- of_int s))))"
proof (cases "fdiv L (Fin a)")
  case (Fin t)
  have "\<lfloor>(- real_of_int s - t) / 2\<rfloor> = \<lfloor>(real_of_int s - t) / 2\<rfloor> - s"
  proof -
    have "(- real_of_int s - t) / 2 = (real_of_int s - t) / 2 - of_int s"
      by (simp add: field_simps)
    then show ?thesis
      by (simp only: floor_diff_of_int)
  qed
  then show ?thesis
    using Fin
    by (simp add: DiscreteLaplace_inverse_privacy_loss_without_subsampling_def Let_def)
qed (simp_all add: DiscreteLaplace_inverse_privacy_loss_without_subsampling_def Let_def
      fgt_def fle_def feq_def fsub_def)

lemma DiscreteGaussian_inverse_shift:
  "DiscreteGaussian_inverse_privacy_loss_without_subsampling sg s bound REMOVE L =
     (case DiscreteGaussian_inverse_privacy_loss_without_subsampling sg s bound ADD L of
        Inl e \<Rightarrow> Inl e
      | Inr x \<Rightarrow> Inr (fadd x (Fin (- of_int s))))"
  by (simp add: DiscreteGaussian_inverse_privacy_loss_without_subsampling_def
      split: sum.splits)

text \<open>
  Claim C5.  With sampling probability 1 and the same noise parameters, the instance
  with ADD adjacency and the instance with REMOVE adjacency return the same result of
  \<open>get_delta_for_epsilon\<close> at every argument (a number or a list), for each of the
  four mechanisms.
\<close>

theorem C5_adjacency_types_agree:
  "(LaplacePrivacyLoss_init stats_l b s 1 ADD = Inr la
      \<and> LaplacePrivacyLoss_init stats_l b s 1 REMOVE = Inr lr \<longrightarrow>
      get_delta_for_epsilon la epsilon = get_delta_for_epsilon lr epsilon)
   \<and> (GaussianPrivacyLoss_init stats_n sd s' pe bound 1 ADD = Inr ga
      \<and> GaussianPrivacyLoss_init stats_n sd s' pe bound 1 REMOVE = Inr gr \<longrightarrow>
      get_delta_for_epsilon ga epsilon = get_delta_for_epsilon gr epsilon)
   \<and> (DiscreteLaplacePrivacyLoss_init stats_d a sens 1 ADD = Inr da
      \<and> DiscreteLaplacePrivacyLoss_init stats_d a sens 1 REMOVE = Inr dr \<longrightarrow>
      get_delta_for_epsilon da epsilon = get_delta_for_epsilon dr epsilon)
   \<and> (DiscreteGaussianPrivacyLoss_init sg sens' tb 1 ADD = Inr za
      \<and> DiscreteGaussianPrivacyLoss_init sg sens' tb 1 REMOVE = Inr zr \<longrightarrow>
      get_delta_for_epsilon za epsilon = get_delta_for_epsilon zr epsilon)"
proof (intro conjI impI)
  assume "LaplacePrivacyLoss_init stats_l b s 1 ADD = Inr la
      \<and> LaplacePrivacyLoss_init stats_l b s 1 REMOVE = Inr lr"
  then have a: "LaplacePrivacyLoss_init stats_l b s 1 ADD = Inr la"
    and r: "LaplacePrivacyLoss_init stats_l b s 1 REMOVE = Inr lr"
    by simp_all
  note fa = LaplacePrivacyLoss_init_Inr [OF a] and fr = LaplacePrivacyLoss_init_Inr [OF r]
  show "get_delta_for_epsilon la epsilon = get_delta_for_epsilon lr epsilon"
    unfolding fa(5) fr(5)
    by (rule get_delta_adjacency_free [symmetric])
       (simp_all add: Laplace_inverse_shift [OF fa(1)] cong: sum.case_cong)
next
  assume "GaussianPrivacyLoss_init stats_n sd s' pe bound 1 ADD = Inr ga
      \<and> GaussianPrivacyLoss_init stats_n sd s' pe bound 1 REMOVE = Inr gr"
  then have a: "GaussianPrivacyLoss_init stats_n sd s' pe bound 1 ADD = Inr ga"
    and r: "GaussianPrivacyLoss_init stats_n sd s' pe bound 1 REMOVE = Inr gr"
    by simp_all
  note fa = GaussianPrivacyLoss_init_Inr [OF a] and fr = GaussianPrivacyLoss_init_Inr [OF r]
  show "get_delta_for_epsilon ga epsilon = get_delta_for_epsilon gr epsilon"
    unfolding fa(6) fr(6)
    by (rule get_delta_adjacency_free [symmetric])
       (simp_all add: Gaussian_inverse_shift cong: sum.case_cong)
next
  assume "DiscreteLaplacePrivacyLoss_init stats_d a sens 1 ADD = Inr da
      \<and> DiscreteLaplacePrivacyLoss_init stats_d a sens 1 REMOVE = Inr dr"
  then have a: "DiscreteLaplacePrivacyLoss_init stats_d a sens 1 ADD = Inr da"
    and r: "DiscreteLaplacePrivacyLoss_init stats_d a sens 1 REMOVE = Inr dr"
    by simp_all
  from DiscreteLaplacePrivacyLoss_init_Inr [OF a] DiscreteLaplacePrivacyLoss_init_Inr [OF r]
  show "get_delta_for_epsilon da epsilon = get_delta_for_epsilon dr epsilon"
    by (intro get_delta_adjacency_free [symmetric])
       (auto simp: DiscreteLaplace_inverse_shift cong: sum.case_cong)
next
  assume "DiscreteGaussianPrivacyLoss_init sg sens' tb 1 ADD = Inr za
      \<and> DiscreteGaussianPrivacyLoss_init sg sens' tb 1 REMOVE = Inr zr"
  then have a: "DiscreteGaussianPrivacyLoss_init sg sens' tb 1 ADD = Inr za"
    and r: "DiscreteGaussianPrivacyLoss_init sg sens' tb 1 REMOVE = Inr zr"
    by simp_all
  from DiscreteGaussianPrivacyLoss_init_Inr [OF a] DiscreteGaussianPrivacyLoss_init_Inr [OF r]
  show "get_delta_for_epsilon za epsilon = get_delta_for_epsilon zr epsilon"
    by (intro get_delta_adjacency_free [symmetric])
       (auto simp: DiscreteGaussian_inverse_shift cong: sum.case_cong)
qed


theorem C5_witness:
  "then_call (LaplacePrivacyLoss_init stats_laplace 1 1 1 ADD)
      (\<lambda>m. get_delta_for_epsilon m (Array [Fin 0, Fin 1]))
     = then_call (LaplacePrivacyLoss_init stats_laplace 1 1 1 REMOVE)
      (\<lambda>m. get_delta_for_epsilon m (Array [Fin 0, Fin 1]))
   \<and> then_call (GaussianPrivacyLoss_init stats_norm 1 1 True (- 50) 1 ADD)
      (\<lambda>m. get_delta_for_epsilon m (Scalar (Fin 1)))
     = then_call (GaussianPrivacyLoss_init stats_norm 1 1 True (- 50) 1 REMOVE)
      (\<lambda>m. get_delta_for_epsilon m (Scalar (Fin 1)))
   \<and> then_call (DiscreteLaplacePrivacyLoss_init stats_dlaplace 1 (PyInt 1) 1 ADD)
      (\<lambda>m. get_delta_for_epsilon m (Scalar (Fin 1)))
     = then_call (DiscreteLaplacePrivacyLoss_init stats_dlaplace 1 (PyInt 1) 1 REMOVE)
      (\<lambda>m. get_delta_for_epsilon m (Scalar (Fin 1)))
   \<and> then_call (DiscreteGaussianPrivacyLoss_init 1 (PyInt 1) (Some 2) 1 ADD)
      (\<lambda>m. get_delta_for_epsilon m (Scalar (Fin 1)))
     = then_call (DiscreteGaussianPrivacyLoss_init 1 (PyInt 1) (Some 2) 1 REMOVE)
      (\<lambda>m. get_delta_for_epsilon m (Scalar (Fin 1)))"
proof -
  obtain la lr where l: "LaplacePrivacyLoss_init stats_laplace 1 1 1 ADD = Inr la"
      "LaplacePrivacyLoss_init stats_laplace 1 1 1 REMOVE = Inr lr"
    by (simp add: LaplacePrivacyLoss_init_valid)
  obtain ga gr where g: "GaussianPrivacyLoss_init stats_norm 1 1 True (- 50) 1 ADD = Inr ga"
      "GaussianPrivacyLoss_init stats_norm 1 1 True (- 50) 1 REMOVE = Inr gr"
    by (simp add: GaussianPrivacyLoss_init_valid)
  obtain da dr where d: "DiscreteLaplacePrivacyLoss_init stats_dlaplace 1 (PyInt 1) 1 ADD = Inr da"
      "DiscreteLaplacePrivacyLoss_init stats_dlaplace 1 (PyInt 1) 1 REMOVE = Inr dr"
    by (simp add: DiscreteLaplacePrivacyLoss_init_valid)
  obtain za zr where z: "DiscreteGaussianPrivacyLoss_init 1 (PyInt 1) (Some 2) 1 ADD = Inr za"
      "DiscreteGaussianPrivacyLoss_init 1 (PyInt 1) (Some 2) 1 REMOVE = Inr zr"
    by (simp add: DiscreteGaussianPrivacyLoss_init_def base_init_check_def Let_def)
  have 1: "get_delta_for_epsilon la (Array [Fin 0, Fin 1])
      = get_delta_for_epsilon lr (Array [Fin 0, Fin 1])"
    using C5_adjacency_types_agree [THEN conjunct1] l by blast
  have 2: "get_delta_for_epsilon ga (Scalar (Fin 1)) = get_delta_for_epsilon gr (Scalar (Fin 1))"
    using C5_adjacency_types_agree [THEN conjunct2, THEN conjunct1] g by blast
  have 3: "get_delta_for_epsilon da (Scalar (Fin 1)) = get_delta_for_epsilon dr (Scalar (Fin 1))"
    using C5_adjacency_types_agree [THEN conjunct2, THEN conjunct2, THEN conjunct1] d by blast
  have 4: "get_delta_for_epsilon za (Scalar (Fin 1)) = get_delta_for_epsilon zr (Scalar (Fin 1))"
    using C5_adjacency_types_agree [THEN conjunct2, THEN conjunct2, THEN conjunct2] z by blast
  show ?thesis
    using 1 2 3 4 by (simp add: then_call_def l g d z)
qed

section \<open>The tail of the privacy loss distribution\<close>

lemma subsample_arg_pos: "0 < q \<Longrightarrow> q \<le> 1 \<Longrightarrow> 0 < q * exp t + (1 - q)" for q t :: real
proof -
  assume "0 < q" "q \<le> 1"
  then have "0 < q * exp t" by simp
  then show ?thesis using \<open>q \<le> 1\<close> by linarith
qed

lemma privacy_loss_Fin:
  assumes "privacy_loss_without_subsampling m x = Inr (Fin l)"
    and "0 < sampling_prob m" and "sampling_prob m \<le> 1"
  shows "privacy_loss m x
       = Inr (Fin (subsampled_loss (adjacency_type m) (sampling_prob m) l))"
  using assms subsample_arg_pos [of "sampling_prob m" l]
    subsample_arg_pos [of "sampling_prob m" "- l"]
  by (auto simp: privacy_loss_def log_a_times_exp_b_plus_c_def subsampled_loss_def)

lemma subsampled_loss_inj:
  assumes "0 < q" and "q \<le> 1" and "subsampled_loss adj q l = subsampled_loss adj q l'"
  shows "l = l'"
proof (cases "q = 1")
  case True
  then show ?thesis using assms by (simp add: subsampled_loss_def)
next
  case False
  have pos: "0 < q * exp t + (1 - q)" for t
    using assms by (intro subsample_arg_pos)
  show ?thesis
  proof (cases adj)
    case ADD
    then have "ln (q * exp (- l) + (1 - q)) = ln (q * exp (- l') + (1 - q))"
      using assms False by (simp add: subsampled_loss_def del: exp_minus)
    then have "q * exp (- l) + (1 - q) = q * exp (- l') + (1 - q)"
      using pos [of "- l"] pos [of "- l'"] by (simp only: ln_inj_iff)
    then show ?thesis
      using assms by (simp del: exp_minus)
  next
    case REMOVE
    then have "ln (q * exp l + (1 - q)) = ln (q * exp l' + (1 - q))"
      using assms False by (simp add: subsampled_loss_def)
    then have "q * exp l + (1 - q) = q * exp l' + (1 - q)"
      using pos [of l] pos [of l'] by (simp only: ln_inj_iff)
    then show ?thesis
      using assms by simp
  qed
qed

lemma mu_upper_cdf_Fin:
  assumes "\<And>x. \<exists>c. noise_cdf m (Fin x) = Fin c"
  shows "\<exists>c. mu_upper_cdf m (Fin x) = Fin c"
proof -
  obtain c where c: "noise_cdf m (Fin x) = Fin c"
    using assms by blast
  obtain c' where c': "noise_cdf m (Fin (x + sensitivity m)) = Fin c'"
    using assms by blast
  show ?thesis
    by (simp add: mu_upper_cdf_def c c')
qed

lemma accounted_two_sided:
  assumes "tail_probability_mass_function t = dict_set k2 (fsub (Fin 1) (Fin cu)) (dict_set k1 (Fin cl) [])"
    and "k1 \<noteq> k2"
    and "mass_inside m t = fsub (Fin cu) (Fin cl)"
  shows "accounted_mass m t = Fin 1"
  using assms by (simp add: accounted_mass_def tail_mass_def)

lemma Laplace_tail_accounted:
  assumes init: "LaplacePrivacyLoss_init stats b s q adj = Inr m"
    and fin: "\<And>x. \<exists>c. cdf (stats b) (Fin x) = Fin c"
  shows "\<exists>t. Laplace_privacy_loss_tail m = Inr t \<and> accounted_mass m t = Fin 1"
proof -
  note f = LaplacePrivacyLoss_init_Inr [OF init]
  have flds: "sensitivity m = s" "sampling_prob m = q" "adjacency_type m = adj"
    "noise_cdf m = cdf (stats b)" "discrete_noise m = False"
    "privacy_loss_without_subsampling m = Laplace_privacy_loss_without_subsampling b s adj"
    by (simp_all add: f(5))
  have fin': "\<And>x. \<exists>c. noise_cdf m (Fin x) = Fin c"
    by (simp add: flds fin)
  define lower where "lower = (if adj = ADD then 0 else - s)"
  define upper where "upper = (if adj = ADD then s else 0)"
  have Ll: "privacy_loss_without_subsampling m (PyFloat (Fin lower)) = Inr (Fin (s / b))"
    using f(1,2) by (simp add: flds lower_def Laplace_privacy_loss_without_subsampling_def)
  have Lu: "privacy_loss_without_subsampling m (PyFloat (Fin upper)) = Inr (Fin (- (s / b)))"
    using f(1,2) by (simp add: flds upper_def Laplace_privacy_loss_without_subsampling_def)
  have kl: "privacy_loss m (PyFloat (Fin lower)) = Inr (Fin (subsampled_loss adj q (s / b)))"
    using privacy_loss_Fin [OF Ll] f(3,4) by (simp add: flds)
  have ku: "privacy_loss m (PyFloat (Fin upper)) = Inr (Fin (subsampled_loss adj q (- (s / b))))"
    using privacy_loss_Fin [OF Lu] f(3,4) by (simp add: flds)
  have pos: "0 < s / b"
    using f(1,2) by simp
  have ne: "Fin (subsampled_loss adj q (s / b)) \<noteq> Fin (subsampled_loss adj q (- (s / b)))"
  proof
    assume "Fin (subsampled_loss adj q (s / b)) = Fin (subsampled_loss adj q (- (s / b)))"
    then have "s / b = - (s / b)"
      using subsampled_loss_inj [OF f(3,4)] by blast
    with pos show False by linarith
  qed
  obtain cl where cl: "mu_upper_cdf m (Fin lower) = Fin cl"
    using mu_upper_cdf_Fin [OF fin'] by blast
  obtain cu where cu: "mu_upper_cdf m (Fin upper) = Fin cu"
    using mu_upper_cdf_Fin [OF fin'] by blast
  let ?t = "\<lparr> lower_x_truncation = Fin lower, upper_x_truncation = Fin upper,
              tail_probability_mass_function =
                dict_set (Fin (subsampled_loss adj q (- (s / b)))) (fsub (Fin 1) (Fin cu))
                  (dict_set (Fin (subsampled_loss adj q (s / b))) (Fin cl) []) \<rparr>"
  have "Laplace_privacy_loss_tail m = Inr ?t"
  proof (cases adj)
    case ADD
    then show ?thesis
      using kl ku cl cu
      by (simp add: Laplace_privacy_loss_tail_def flds lower_def upper_def Let_def
          del: dict_set.simps)
  next
    case REMOVE
    then show ?thesis
      using kl ku cl cu
      by (simp add: Laplace_privacy_loss_tail_def flds lower_def upper_def Let_def
          del: dict_set.simps)
  qed
  moreover have "accounted_mass m ?t = Fin 1"
    by (rule accounted_two_sided [OF _ ne]) (simp_all add: mass_inside_def flds cl cu)
  ultimately show ?thesis
    by blast
qed

lemma Gaussian_tail_accounted:
  assumes init: "GaussianPrivacyLoss_init stats sd s pe bound q adj = Inr m"
    and fin: "\<And>x. \<exists>c. cdf (stats sd) (Fin x) = Fin c"
    and ppf: "ppf (stats sd) (Fin (1 / 2 * exp bound)) = Fin z"
  shows "\<exists>t. Gaussian_privacy_loss_tail m = Inr t
           \<and> lower_x_truncation t = Fin (if adj = ADD then z else z - s)
           \<and> upper_x_truncation t = Fin (if adj = ADD then - z + s else - z)
           \<and> accounted_mass m t
               = (if pe then Fin 1 else mu_upper_cdf m (upper_x_truncation t))"
proof -
  note f = GaussianPrivacyLoss_init_Inr [OF init]
  have flds: "sensitivity m = s" "sampling_prob m = q" "adjacency_type m = adj"
    "noise_cdf m = cdf (stats sd)" "discrete_noise m = False"
    "privacy_loss_without_subsampling m = Gaussian_privacy_loss_without_subsampling sd s adj"
    "gaussian_random_variable m = stats sd" "log_mass_truncation_bound m = bound"
    "pessimistic_estimate m = pe"
    by (simp_all add: f(6))
  have fin': "\<And>x. \<exists>c. noise_cdf m (Fin x) = Fin c"
    by (simp add: flds fin)
  define lower where "lower = (if adj = ADD then z else z - s)"
  define upper where "upper = (if adj = ADD then - z + s else - z)"
  have loss: "\<exists>l. privacy_loss_without_subsampling m (PyFloat (Fin x)) = Inr (Fin l)" for x
    using f(1) by (simp add: flds Gaussian_privacy_loss_without_subsampling_def)
  obtain ll where kl: "privacy_loss m (PyFloat (Fin lower)) = Inr (Fin ll)"
    using loss [of lower] privacy_loss_Fin [of m "PyFloat (Fin lower)"] f(4,5)
    by (auto simp: flds)
  obtain lu where ku: "privacy_loss m (PyFloat (Fin upper)) = Inr (Fin lu)"
    using loss [of upper] privacy_loss_Fin [of m "PyFloat (Fin upper)"] f(4,5)
    by (auto simp: flds)
  obtain cl where cl: "mu_upper_cdf m (Fin lower) = Fin cl"
    using mu_upper_cdf_Fin [OF fin'] by blast
  obtain cu where cu: "mu_upper_cdf m (Fin upper) = Fin cu"
    using mu_upper_cdf_Fin [OF fin'] by blast
  show ?thesis
  proof (cases pe)
    case True
    let ?t = "\<lparr> lower_x_truncation = Fin lower, upper_x_truncation = Fin upper,
                tail_probability_mass_function =
                  dict_set (Fin lu) (fsub (Fin 1) (Fin cu)) (dict_set PInf (Fin cl) []) \<rparr>"
    have "Gaussian_privacy_loss_tail m = Inr ?t"
    proof (cases adj)
      case ADD
      then show ?thesis
        using kl ku cl cu True ppf
        by (simp add: Gaussian_privacy_loss_tail_def flds lower_def upper_def Let_def
            del: dict_set.simps)
    next
      case REMOVE
      then show ?thesis
        using kl ku cl cu True ppf
        by (simp add: Gaussian_privacy_loss_tail_def flds lower_def upper_def Let_def
            del: dict_set.simps)
    qed
    moreover have "accounted_mass m ?t = Fin 1"
      by (rule accounted_two_sided [where ?k1.0 = PInf and ?k2.0 = "Fin lu"])
         (simp_all add: mass_inside_def flds cl cu)
    ultimately show ?thesis
      using True by (auto simp: lower_def upper_def)
  next
    case False
    let ?t = "\<lparr> lower_x_truncation = Fin lower, upper_x_truncation = Fin upper,
                tail_probability_mass_function = dict_set (Fin ll) (Fin cl) [] \<rparr>"
    have "Gaussian_privacy_loss_tail m = Inr ?t"
    proof (cases adj)
      case ADD
      then show ?thesis
        using kl ku cl cu False ppf
        by (simp add: Gaussian_privacy_loss_tail_def flds lower_def upper_def Let_def
            del: dict_set.simps)
    next
      case REMOVE
      then show ?thesis
        using kl ku cl cu False ppf
        by (simp add: Gaussian_privacy_loss_tail_def flds lower_def upper_def Let_def
            del: dict_set.simps)
    qed
    moreover have "accounted_mass m ?t = mu_upper_cdf m (Fin upper)"
      by (simp add: accounted_mass_def tail_mass_def mass_inside_def flds cl cu)
    ultimately show ?thesis
      using False by (auto simp: lower_def upper_def)
  qed
qed

lemma DiscreteLaplace_tail_accounted:
  assumes init: "DiscreteLaplacePrivacyLoss_init stats a sens q adj = Inr m"
    and fin: "\<And>x. \<exists>c. cdf (stats a) (Fin x) = Fin c"
  shows "\<exists>t. DiscreteLaplace_privacy_loss_tail m = Inr t \<and> accounted_mass m t = Fin 1"
proof -
  from DiscreteLaplacePrivacyLoss_init_Inr [OF init]
  obtain s where a: "0 < a" and s: "0 < s" and q: "0 < q" "q \<le> 1"
    and flds: "sensitivity m = of_int s" "sampling_prob m = q" "adjacency_type m = adj"
      "noise_cdf m = cdf (stats a)" "discrete_noise m = True" "sensitivity_int m = s"
      "privacy_loss_without_subsampling m
         = DiscreteLaplace_privacy_loss_without_subsampling a s adj"
    by auto
  have fin': "\<And>x. \<exists>c. noise_cdf m (Fin x) = Fin c"
    by (simp add: flds fin)
  define lower where "lower = (if adj = ADD then 1 else 1 - s)"
  define upper where "upper = (if adj = ADD then s - 1 else - 1)"
  have Ll: "privacy_loss_without_subsampling m (PyInt (lower - 1))
      = Inr (Fin (of_int s * a))"
    using s by (simp add: flds lower_def DiscreteLaplace_privacy_loss_without_subsampling_def)
  have Lu: "privacy_loss_without_subsampling m (PyInt (upper + 1))
      = Inr (Fin (- (of_int s * a)))"
    using s by (simp add: flds upper_def DiscreteLaplace_privacy_loss_without_subsampling_def)
  have kl: "privacy_loss m (PyInt (lower - 1))
      = Inr (Fin (subsampled_loss adj q (of_int s * a)))"
    using privacy_loss_Fin [OF Ll] q by (simp add: flds)
  have ku: "privacy_loss m (PyInt (upper + 1))
      = Inr (Fin (subsampled_loss adj q (- (of_int s * a))))"
    using privacy_loss_Fin [OF Lu] q by (simp add: flds)
  have pos: "0 < of_int s * a"
    using a s by simp
  have ne: "Fin (subsampled_loss adj q (of_int s * a))
      \<noteq> Fin (subsampled_loss adj q (- (of_int s * a)))"
  proof
    assume "Fin (subsampled_loss adj q (of_int s * a))
      = Fin (subsampled_loss adj q (- (of_int s * a)))"
    then have "of_int s * a = - (of_int s * a)"
      using subsampled_loss_inj [OF q] by blast
    with pos show False by linarith
  qed
  obtain cl where cl: "mu_upper_cdf m (Fin (of_int (lower - 1))) = Fin cl"
    using mu_upper_cdf_Fin [OF fin'] by blast
  obtain cu where cu: "mu_upper_cdf m (Fin (of_int upper)) = Fin cu"
    using mu_upper_cdf_Fin [OF fin'] by blast
  let ?t = "\<lparr> lower_x_truncation = Fin (of_int lower), upper_x_truncation = Fin (of_int upper),
              tail_probability_mass_function =
                dict_set (Fin (subsampled_loss adj q (- (of_int s * a)))) (fsub (Fin 1) (Fin cu))
                  (dict_set (Fin (subsampled_loss adj q (of_int s * a))) (Fin cl) []) \<rparr>"
  have "DiscreteLaplace_privacy_loss_tail m = Inr ?t"
  proof (cases adj)
    case ADD
    then show ?thesis
      using kl ku cl cu
      by (simp add: DiscreteLaplace_privacy_loss_tail_def flds lower_def upper_def Let_def
          del: dict_set.simps)
  next
    case REMOVE
    then show ?thesis
      using kl ku cl cu
      by (simp add: DiscreteLaplace_privacy_loss_tail_def flds lower_def upper_def Let_def
          del: dict_set.simps)
  qed
  moreover have "accounted_mass m ?t = Fin 1"
    using cl by (intro accounted_two_sided [OF _ ne]) (simp_all add: mass_inside_def flds cu)
  ultimately show ?thesis
    by blast
qed

lemma np_clip_Fin: "np_clip (Fin x) (Fin lo) (Fin hi) = Fin (min (max x lo) hi)"
  by (simp add: np_clip_def np_maximum_def np_minimum_def min_def max_def)

lemma np_logaddexp_regular:
  "x \<noteq> PInf \<Longrightarrow> x \<noteq> NaN \<Longrightarrow> y \<noteq> PInf \<Longrightarrow> y \<noteq> NaN
     \<Longrightarrow> np_logaddexp x y \<noteq> PInf \<and> np_logaddexp x y \<noteq> NaN"
  by (cases x; cases y) simp_all

lemma accumulate_from_regular:
  assumes "acc \<noteq> PInf" "acc \<noteq> NaN" "\<forall>x \<in> set xs. x \<noteq> PInf \<and> x \<noteq> NaN"
  shows "\<forall>v \<in> set (accumulate_from acc xs). v \<noteq> PInf \<and> v \<noteq> NaN"
  using assms
proof (induction xs arbitrary: acc)
  case Nil
  then show ?case by simp
next
  case (Cons x xs)
  have r: "np_logaddexp acc x \<noteq> PInf \<and> np_logaddexp acc x \<noteq> NaN"
    using Cons.prems by (intro np_logaddexp_regular) simp_all
  then have "\<forall>v \<in> set (accumulate_from (np_logaddexp acc x) xs). v \<noteq> PInf \<and> v \<noteq> NaN"
    using Cons.prems by (intro Cons.IH) simp_all
  with r show ?case by simp
qed

lemma fexp_fsub_regular:
  "v \<noteq> PInf \<Longrightarrow> v \<noteq> NaN \<Longrightarrow> \<exists>r. fexp (fsub v (Fin c)) = Fin r"
  by (cases v) (simp_all add: fsub_def)

lemma DiscreteGaussian_cdf_array:
  assumes "DiscreteGaussianPrivacyLoss_init sg sens tb q adj = Inr m"
  shows "length (cdf_array m) = nat (2 * truncation_bound m + 2)"
    and "last (cdf_array m) = Fin 1"
    and "\<forall>v \<in> set (cdf_array m). \<exists>r. v = Fin r"
    and "1 \<le> truncation_bound m"
proof -
  from DiscreteGaussianPrivacyLoss_init_Inr [OF assms]
  obtain s where s: "0 < s" "s \<le> 2 * truncation_bound m"
    and lcdf: "log_cdf_array m =
            map (\<lambda>v. fsub v (last (logaddexp_accumulate
                   (NInf # map (\<lambda>i. Fin (- (1 / 2) * of_int (i ^ 2) / sg ^ 2))
                      [- 1 * truncation_bound m .. truncation_bound m]))))
              (logaddexp_accumulate
                   (NInf # map (\<lambda>i. Fin (- (1 / 2) * of_int (i ^ 2) / sg ^ 2))
                      [- 1 * truncation_bound m .. truncation_bound m]))"
    and cdf: "cdf_array m = map fexp (log_cdf_array m)"
    by blast
  let ?B = "truncation_bound m"
  define xs where "xs = map (\<lambda>i. Fin (- (1 / 2) * of_int (i ^ 2) / sg ^ 2)) [- 1 * ?B .. ?B]"
  define acc where "acc = logaddexp_accumulate (NInf # xs)"
  have lcdf': "log_cdf_array m = map (\<lambda>v. fsub v (last acc)) acc"
    unfolding acc_def xs_def by (rule lcdf)
  show B: "1 \<le> ?B" using s by linarith
  then have ne: "[- 1 * ?B .. ?B] \<noteq> []" by simp
  have len: "length acc = nat (2 * ?B + 2)"
    using B by (simp add: acc_def xs_def Suc_nat_eq_nat_zadd1)
  have acc_ne: "acc \<noteq> []"
    by (simp add: acc_def)
  obtain c where c: "last acc = Fin c"
    unfolding acc_def xs_def
    using last_logaddexp_accumulate_finite
      [OF ne, of "\<lambda>i. - (1 / 2) * of_int (i ^ 2) / sg ^ 2"] by blast
  have reg: "\<forall>v \<in> set acc. v \<noteq> PInf \<and> v \<noteq> NaN"
  proof -
    have "\<forall>v \<in> set (accumulate_from NInf xs). v \<noteq> PInf \<and> v \<noteq> NaN"
      by (rule accumulate_from_regular) (auto simp: xs_def)
    then show ?thesis
      by (simp add: acc_def)
  qed
  show "length (cdf_array m) = nat (2 * ?B + 2)"
    by (simp add: cdf lcdf' len)
  show "last (cdf_array m) = Fin 1"
    using acc_ne by (simp add: cdf lcdf' last_map c)
  show "\<forall>v \<in> set (cdf_array m). \<exists>r. v = Fin r"
    using reg fexp_fsub_regular [where c = c]
    by (auto simp: cdf lcdf' c)
qed

lemma DiscreteGaussian_noise_cdf:
  assumes init: "DiscreteGaussianPrivacyLoss_init sg sens tb q adj = Inr m"
  shows "\<exists>c. noise_cdf m (Fin x) = Fin c"
    and "of_int (truncation_bound m) \<le> x \<Longrightarrow> noise_cdf m (Fin x) = Fin 1"
proof -
  note arr = DiscreteGaussian_cdf_array [OF init]
  let ?B = "truncation_bound m"
  from DiscreteGaussianPrivacyLoss_init_Inr [OF init]
  have nc: "noise_cdf m = array_lookup ?B (- 1 * ?B - 1) (cdf_array m)"
    by auto
  define y where "y = min (max x (of_int (- 1 * ?B - 1))) (of_int ?B)"
  have look: "noise_cdf m (Fin x) = cdf_array m ! nat (\<lfloor>y\<rfloor> + ?B + 1)"
    by (simp add: nc array_lookup_def np_clip_Fin y_def algebra_simps)
  have lo: "of_int (- 1 * ?B - 1) \<le> y" and hi: "y \<le> of_int ?B"
    using arr(4) by (simp_all add: y_def min_def max_def)
  have flo: "- 1 * ?B - 1 \<le> \<lfloor>y\<rfloor>" and fhi: "\<lfloor>y\<rfloor> \<le> ?B"
    using lo hi by (simp_all add: le_floor_iff floor_le_iff)
  have idx: "nat (\<lfloor>y\<rfloor> + ?B + 1) < length (cdf_array m)"
    using flo fhi by (simp add: arr(1))
  then have "cdf_array m ! nat (\<lfloor>y\<rfloor> + ?B + 1) \<in> set (cdf_array m)"
    by (rule nth_mem)
  then show "\<exists>c. noise_cdf m (Fin x) = Fin c"
    using arr(3) by (auto simp: look)
  assume "of_int ?B \<le> x"
  then have "y = of_int ?B"
    using arr(4) by (simp add: y_def min_def max_def)
  then have "nat (\<lfloor>y\<rfloor> + ?B + 1) = length (cdf_array m) - 1"
    using arr(4) by (simp add: arr(1))
  moreover have "cdf_array m \<noteq> []"
    using idx by auto
  ultimately show "noise_cdf m (Fin x) = Fin 1"
    using arr(2) by (simp add: look last_conv_nth)
qed

lemma DiscreteGaussian_discrete_noise:
  assumes "DiscreteGaussianPrivacyLoss_init sg sens tb q adj = Inr m"
  shows "discrete_noise m"
  using assms
  by (cases sens)
     (auto simp: DiscreteGaussianPrivacyLoss_init_def base_init_check_def Let_def
        split: if_splits)

lemma DiscreteGaussian_tail_accounted:
  assumes init: "DiscreteGaussianPrivacyLoss_init sg sens tb q adj = Inr m"
  shows "\<exists>t. DiscreteGaussian_privacy_loss_tail m = Inr t \<and> accounted_mass m t = Fin 1"
proof -
  let ?B = "truncation_bound m"
  from DiscreteGaussianPrivacyLoss_init_Inr [OF init]
  obtain s where s: "0 < s"
    and flds: "sensitivity m = of_int s" "sensitivity_dg m = s" "sampling_prob m = q"
      "adjacency_type m = adj"
    by auto
  note disc = DiscreteGaussian_discrete_noise [OF init]
  note nc = DiscreteGaussian_noise_cdf [OF init]
  define upper where "upper = (if adj = ADD then ?B else if q = 1 then ?B - s else ?B)"
  define lower where "lower = (if adj = ADD then (if q = 1 then s - ?B else - 1 * ?B)
                               else - 1 * ?B)"
  have top: "noise_cdf m (Fin (of_int ?B)) = Fin 1"
    by (rule nc(2)) simp
  have top': "noise_cdf m (Fin (of_int ?B + of_int s)) = Fin 1"
    using s by (intro nc(2)) simp
  have cu: "mu_upper_cdf m (Fin (of_int upper)) = Fin 1"
  proof (cases adj)
    case ADD
    then show ?thesis
      by (simp add: mu_upper_cdf_def flds upper_def top)
  next
    case REMOVE
    then show ?thesis
      using top top' by (simp add: mu_upper_cdf_def flds upper_def)
  qed
  obtain cl where cl: "mu_upper_cdf m (Fin (of_int (lower - 1))) = Fin cl"
    using mu_upper_cdf_Fin [of m] nc(1) by blast
  then have cl': "mu_upper_cdf m (Fin (of_int lower - 1)) = Fin cl"
    by simp
  let ?t = "\<lparr> lower_x_truncation = Fin (of_int lower), upper_x_truncation = Fin (of_int upper),
              tail_probability_mass_function = dict_set PInf (Fin cl) [] \<rparr>"
  have "DiscreteGaussian_privacy_loss_tail m = Inr ?t"
    using cl
    by (cases adj; cases "q = 1")
       (simp_all add: DiscreteGaussian_privacy_loss_tail_def flds lower_def upper_def Let_def)
  moreover have "accounted_mass m ?t = Fin 1"
    using disc by (simp add: accounted_mass_def tail_mass_def mass_inside_def cu cl')
  ultimately show ?thesis
    by blast
qed

text \<open>
  Claim C6, as the code has it.  For every Laplace instance, every discrete Laplace
  instance, every discrete Gaussian instance and every Gaussian instance with
  \<open>pessimistic_estimate = True\<close>, the values of the tail probability mass function and
  the mass of \<open>mu_upper\<close> inside \<open>[lower_x_truncation, upper_x_truncation]\<close> add up
  to 1.  For a Gaussian instance with \<open>pessimistic_estimate = False\<close> they add up to
  \<open>mu_upper_cdf(upper_x_truncation)\<close>: the mass above \<open>upper_x_truncation\<close> is left out
  of the tail, as the docstring of the method says.  The noise CDF of the library is taken
  to be finite at every finite point, and the normal quantile at
  \<open>0.5 * exp(log_mass_truncation_bound)\<close> to be finite.
\<close>

theorem C6_tail_accounts_for_mass:
  "(LaplacePrivacyLoss_init stats_l b s q adj = Inr la
      \<and> (\<forall>x. \<exists>c. cdf (stats_l b) (Fin x) = Fin c) \<longrightarrow>
      (\<exists>t. Laplace_privacy_loss_tail la = Inr t \<and> accounted_mass la t = Fin 1))
   \<and> (GaussianPrivacyLoss_init stats_n sd s' pe bound q' adj' = Inr ga
      \<and> (\<forall>x. \<exists>c. cdf (stats_n sd) (Fin x) = Fin c)
      \<and> ppf (stats_n sd) (Fin (1 / 2 * exp bound)) = Fin z \<longrightarrow>
      (\<exists>t. Gaussian_privacy_loss_tail ga = Inr t
         \<and> lower_x_truncation t = Fin (if adj' = ADD then z else z - s')
         \<and> upper_x_truncation t = Fin (if adj' = ADD then - z + s' else - z)
         \<and> accounted_mass ga t
             = (if pe then Fin 1 else mu_upper_cdf ga (upper_x_truncation t))))
   \<and> (DiscreteLaplacePrivacyLoss_init stats_d a sens q'' adj'' = Inr da
      \<and> (\<forall>x. \<exists>c. cdf (stats_d a) (Fin x) = Fin c) \<longrightarrow>
      (\<exists>t. DiscreteLaplace_privacy_loss_tail da = Inr t \<and> accounted_mass da t = Fin 1))
   \<and> (DiscreteGaussianPrivacyLoss_init sg sens' tb q''' adj''' = Inr za \<longrightarrow>
      (\<exists>t. DiscreteGaussian_privacy_loss_tail za = Inr t \<and> accounted_mass za t = Fin 1))"
proof (intro conjI impI)
  assume "LaplacePrivacyLoss_init stats_l b s q adj = Inr la
      \<and> (\<forall>x. \<exists>c. cdf (stats_l b) (Fin x) = Fin c)"
  then show "\<exists>t. Laplace_privacy_loss_tail la = Inr t \<and> accounted_mass la t = Fin 1"
    by (intro Laplace_tail_accounted) auto
next
  assume "GaussianPrivacyLoss_init stats_n sd s' pe bound q' adj' = Inr ga
      \<and> (\<forall>x. \<exists>c. cdf (stats_n sd) (Fin x) = Fin c)
      \<and> ppf (stats_n sd) (Fin (1 / 2 * exp bound)) = Fin z"
  then show "\<exists>t. Gaussian_privacy_loss_tail ga = Inr t
         \<and> lower_x_truncation t = Fin (if adj' = ADD then z else z - s')
         \<and> upper_x_truncation t = Fin (if adj' = ADD then - z + s' else - z)
         \<and> accounted_mass ga t
             = (if pe then Fin 1 else mu_upper_cdf ga (upper_x_truncation t))"
    by (intro Gaussian_tail_accounted) auto
next
  assume "DiscreteLaplacePrivacyLoss_init stats_d a sens q'' adj'' = Inr da
      \<and> (\<forall>x. \<exists>c. cdf (stats_d a) (Fin x) = Fin c)"
  then show "\<exists>t. DiscreteLaplace_privacy_loss_tail da = Inr t \<and> accounted_mass da t = Fin 1"
    by (intro DiscreteLaplace_tail_accounted) auto
next
  assume "DiscreteGaussianPrivacyLoss_init sg sens' tb q''' adj''' = Inr za"
  then show "\<exists>t. DiscreteGaussian_privacy_loss_tail za = Inr t \<and> accounted_mass za t = Fin 1"
    by (rule DiscreteGaussian_tail_accounted)
qed

theorem C6_counterexample:
  "then_call (GaussianPrivacyLoss_init stats_norm 1 1 False 0 1 ADD)
     (\<lambda>m. then_call (Gaussian_privacy_loss_tail m) (\<lambda>t. Inr (accounted_mass m t)))
   \<noteq> (Inr (Fin 1) :: error + pyfloat)"
proof -
  obtain m where m: "GaussianPrivacyLoss_init stats_norm 1 1 False 0 1 ADD = Inr m"
    by (simp add: GaussianPrivacyLoss_init_valid)
  note f = GaussianPrivacyLoss_init_Inr [OF m]
  have fin: "\<And>x. \<exists>c. cdf (stats_norm 1) (Fin x) = Fin c"
    by simp
  have q: "ppf (stats_norm 1) (Fin (1 / 2 * exp 0)) = Fin 0"
    by simp
  from Gaussian_tail_accounted [OF m fin q]
  obtain t where t: "Gaussian_privacy_loss_tail m = Inr t"
    and up: "upper_x_truncation t = Fin 1"
    and acc: "accounted_mass m t = mu_upper_cdf m (upper_x_truncation t)"
    by auto
  have "mu_upper_cdf m (Fin 1) = Fin (std_normal_cdf 1)"
    by (subst f(6)) (simp add: mu_upper_cdf_def)
  then have "accounted_mass m t = Fin (std_normal_cdf 1)"
    by (simp add: acc up)
  then show ?thesis
    using std_normal_cdf_1_less by (simp add: then_call_def m t)
qed

theorem C6_witness:
  "then_call (LaplacePrivacyLoss_init stats_laplace 1 1 (1 / 2) REMOVE)
     (\<lambda>m. then_call (Laplace_privacy_loss_tail m) (\<lambda>t. Inr (accounted_mass m t)))
     = (Inr (Fin 1) :: error + pyfloat)
   \<and> then_call (GaussianPrivacyLoss_init stats_norm 1 1 True 0 1 ADD)
     (\<lambda>m. then_call (Gaussian_privacy_loss_tail m) (\<lambda>t. Inr (accounted_mass m t)))
     = (Inr (Fin 1) :: error + pyfloat)
   \<and> then_call (GaussianPrivacyLoss_init stats_norm 1 1 False 0 1 ADD)
     (\<lambda>m. then_call (Gaussian_privacy_loss_tail m) (\<lambda>t. Inr (accounted_mass m t)))
     = (Inr (Fin (std_normal_cdf 1)) :: error + pyfloat)
   \<and> then_call (DiscreteLaplacePrivacyLoss_init stats_dlaplace 1 (PyInt 2) (1 / 2) ADD)
     (\<lambda>m. then_call (DiscreteLaplace_privacy_loss_tail m) (\<lambda>t. Inr (accounted_mass m t)))
     = (Inr (Fin 1) :: error + pyfloat)
   \<and> then_call (DiscreteGaussianPrivacyLoss_init 1 (PyInt 1) (Some 2) (1 / 2) REMOVE)
     (\<lambda>m. then_call (DiscreteGaussian_privacy_loss_tail m) (\<lambda>t. Inr (accounted_mass m t)))
     = (Inr (Fin 1) :: error + pyfloat)"
proof -
  obtain la where la: "LaplacePrivacyLoss_init stats_laplace 1 1 (1 / 2) REMOVE = Inr la"
    by (simp add: LaplacePrivacyLoss_init_valid)
  obtain gp where gp: "GaussianPrivacyLoss_init stats_norm 1 1 True 0 1 ADD = Inr gp"
    by (simp add: GaussianPrivacyLoss_init_valid)
  obtain go where go: "GaussianPrivacyLoss_init stats_norm 1 1 False 0 1 ADD = Inr go"
    by (simp add: GaussianPrivacyLoss_init_valid)
  obtain da where da:
    "DiscreteLaplacePrivacyLoss_init stats_dlaplace 1 (PyInt 2) (1 / 2) ADD = Inr da"
    by (simp add: DiscreteLaplacePrivacyLoss_init_valid)
  obtain za where za:
    "DiscreteGaussianPrivacyLoss_init 1 (PyInt 1) (Some 2) (1 / 2) REMOVE = Inr za"
    by (simp add: DiscreteGaussianPrivacyLoss_init_def base_init_check_def Let_def)
  have finl: "\<forall>x. \<exists>c. cdf (stats_laplace 1) (Fin x) = Fin c"
    by (simp add: stats_laplace_def)
  have finn: "\<forall>x. \<exists>c. cdf (stats_norm 1) (Fin x) = Fin c"
    by simp
  have find: "\<forall>x. \<exists>c. cdf (stats_dlaplace 1) (Fin x) = Fin c"
    by (simp add: stats_dlaplace_def)
  have q: "ppf (stats_norm 1) (Fin (1 / 2 * exp 0)) = Fin 0"
    by simp
  have 1: "\<exists>t. Laplace_privacy_loss_tail la = Inr t \<and> accounted_mass la t = Fin 1"
    using C6_tail_accounts_for_mass [THEN conjunct1] la finl by blast
  have 2: "\<exists>t. Gaussian_privacy_loss_tail gp = Inr t \<and> accounted_mass gp t = Fin 1"
    using C6_tail_accounts_for_mass
      [where stats_n = stats_norm and sd = 1 and s' = 1 and pe = True and bound = 0
        and q' = 1 and adj' = ADD and ga = gp and z = 0,
        THEN conjunct2, THEN conjunct1] gp finn q
    by auto
  have 3: "\<exists>t. Gaussian_privacy_loss_tail go = Inr t
      \<and> accounted_mass go t = Fin (std_normal_cdf 1)"
  proof -
    from C6_tail_accounts_for_mass
      [where stats_n = stats_norm and sd = 1 and s' = 1 and pe = False and bound = 0
        and q' = 1 and adj' = ADD and ga = go and z = 0,
        THEN conjunct2, THEN conjunct1] go finn q
    obtain t where t: "Gaussian_privacy_loss_tail go = Inr t"
      and up: "upper_x_truncation t = Fin 1"
      and acc: "accounted_mass go t = mu_upper_cdf go (upper_x_truncation t)"
      by auto
    have "mu_upper_cdf go (Fin 1) = Fin (std_normal_cdf 1)"
      by (subst GaussianPrivacyLoss_init_Inr(6) [OF go]) (simp add: mu_upper_cdf_def)
    then show ?thesis
      using t up acc by simp
  qed
  have 4: "\<exists>t. DiscreteLaplace_privacy_loss_tail da = Inr t \<and> accounted_mass da t = Fin 1"
    using C6_tail_accounts_for_mass [THEN conjunct2, THEN conjunct2, THEN conjunct1] da find
    by blast
  have 5: "\<exists>t. DiscreteGaussian_privacy_loss_tail za = Inr t \<and> accounted_mass za t = Fin 1"
    using C6_tail_accounts_for_mass [THEN conjunct2, THEN conjunct2, THEN conjunct2] za
    by blast
  show ?thesis
    using 1 2 3 4 5 by (auto simp: then_call_def la gp go da za)
qed

end
